theory Spec2Isabelle
  imports Main
begin

section \<open>Data model of the rescheduler\<close>

text \<open>
  The rescheduler works on pointers: a \<^verbatim>\<open>*apiv1.Pod\<close> is shared between the pod list of
  a node, the list of pods to move and the drain call, and a \<^verbatim>\<open>*nodes.NodeInfo\<close> is
  shared between a \<^verbatim>\<open>NodeInfoArray\<close> and whoever holds the array.  Objects therefore live
  in a store, and a pointer is the address of a live object.  Two stores are kept apart, one
  per pointer type.  Pods are only ever mutated, never created, by the code of this file;
  NodeInfo objects are created by copying, at the allocation limit \<open>nextInfo\<close>.
\<close>

type_synonym addr = nat

text \<open>Go \<^verbatim>\<open>error\<close> values: one built by \<^verbatim>\<open>fmt.Errorf\<close> (format and rendered arguments),
  or one handed back by a collaborator.\<close>

datatype error = fmt_Errorf string "string list" | ClientError string

text \<open>\<^verbatim>\<open>apiv1.Pod\<close>: the field the rescheduler writes, and everything else.\<close>

record 'p Pod =
  NodeName :: string
  PodRest :: 'p

text \<open>\<^verbatim>\<open>apiv1.Node\<close>: the field the rescheduler reads, and everything else.  Nodes are never
  written, so they are held by value.\<close>

record 'n Node =
  Name :: string
  NodeRest :: 'n

text \<open>\<^verbatim>\<open>nodes.NodeInfo\<close>, with the two fields \<^verbatim>\<open>rescheduler.go\<close> uses.\<close>

record 'n NodeInfo =
  Node :: "'n Node"
  Pods :: "addr list"

text \<open>\<^verbatim>\<open>schedulercache.NodeInfo\<close>: it is built from the pod pointers of a node and then
  given the node.  The pods behind the pointers are read when the predicates run.\<close>

record 'n KubeNodeInfo =
  kpods :: "addr list"
  knode :: "'n Node option"

definition NewNodeInfo :: "addr list \<Rightarrow> 'n KubeNodeInfo" where
  "NewNodeInfo pods = \<lparr>kpods = pods, knode = None\<rparr>"

definition SetNode :: "'n KubeNodeInfo \<Rightarrow> 'n Node \<Rightarrow> 'n KubeNodeInfo" where
  "SetNode k node = k\<lparr>knode := Some node\<rparr>"

record ('p, 'n) heap =
  podH :: "addr \<Rightarrow> 'p Pod"
  infoH :: "addr \<Rightarrow> 'n NodeInfo"
  nextInfo :: addr

text \<open>
  What planning calls outside \<^verbatim>\<open>rescheduler.go\<close>.  \<open>CheckPredicates\<close> is the scheduler's
  predicate checker (\<open>None\<close> is a nil error); it gets the pod store as it is when it runs.
  \<open>CopyNodeInfos\<close> and \<open>AddPod\<close> are the methods of package \<^verbatim>\<open>nodes\<close>; they work on the
  store and return as Go does, a value and an error.  \<open>podId\<close> renders a pod for messages.
\<close>

record ('p, 'n) collab =
  CheckPredicates :: "(addr \<Rightarrow> 'p Pod) \<Rightarrow> addr \<Rightarrow> 'n KubeNodeInfo \<Rightarrow> error option"
  CopyNodeInfos :: "('p, 'n) heap \<Rightarrow> addr list \<Rightarrow> (addr list \<times> error option) \<times> ('p, 'n) heap"
  AddPod :: "('p, 'n) heap \<Rightarrow> addr \<Rightarrow> addr \<Rightarrow> ('p, 'n) heap"
  podId :: "'p Pod \<Rightarrow> string"

text \<open>What the process does that can be seen from outside: log lines (format and
  arguments), metrics updates, and the call of the drain executor.\<close>

datatype arg = Str string | Err error | Dur int

datatype 'n event =
    Infof string "arg list"
  | Errorf string "arg list"
  | UnschedulablePodLister_List
  | NodeLister_List
  | NewNodeMap
  | PodDisruptionBudgetLister_List
  | UpdateNodesMap "addr list" "addr list"
  | UpdateNodePodsCount string string nat
  | UpdateNodeDrainCount string string
  | DrainNode "'n Node" "addr list"

text \<open>The state of the process: the store, the global \<^verbatim>\<open>nextDrainTime\<close> (nanoseconds on
  an unbounded clock), and what it has done so far.\<close>

record ('p, 'n) world =
  heap :: "('p, 'n) heap"
  nextDrainTime :: int
  trace :: "'n event list"

definition emit :: "'n event \<Rightarrow> ('p, 'n) world \<Rightarrow> ('p, 'n) world" where
  "emit ev w = w\<lparr>trace := trace w @ [ev]\<rparr>"

section \<open>Planning\<close>

text \<open>\<^verbatim>\<open>pod.Spec.NodeName = ""\<close>\<close>

definition clearNodeName :: "('p, 'n) heap \<Rightarrow> addr \<Rightarrow> ('p, 'n) heap" where
  "clearNodeName h pod = h\<lparr>podH := (podH h)(pod := (podH h pod)\<lparr>NodeName := []\<rparr>)\<rparr>"

text \<open>\<^verbatim>\<open>findSpotNodeForPod\<close> (lines 261-275): the range loop over \<open>nodeInfos\<close>; the result
  is the node found (\<open>None\<close> is nil) and the store after the call.\<close>

fun findSpotNodeForPod ::
  "('p, 'n) collab \<Rightarrow> ('p, 'n) heap \<Rightarrow> addr list \<Rightarrow> addr \<Rightarrow> addr option \<times> ('p, 'n) heap" where
  "findSpotNodeForPod c h [] pod = (None, h)"
| "findSpotNodeForPod c h (nodeInfo # nodeInfos) pod =
     (let kubeNodeInfo = SetNode (NewNodeInfo (Pods (infoH h nodeInfo))) (Node (infoH h nodeInfo));
          h' = clearNodeName h pod
      in if CheckPredicates c (podH h') pod kubeNodeInfo = None then (Some nodeInfo, h')
         else findSpotNodeForPod c h' nodeInfos pod)"

text \<open>The loop over \<open>pods\<close> in \<^verbatim>\<open>buildDrainPlan\<close> (lines 287-298).\<close>

fun planPods ::
  "('p, 'n) collab \<Rightarrow> ('p, 'n) world \<Rightarrow> addr list \<Rightarrow> addr list \<Rightarrow> error option \<times> ('p, 'n) world" where
  "planPods c w nodePlan [] = (None, w)"
| "planPods c w nodePlan (pod # pods) =
     (case findSpotNodeForPod c (heap w) nodePlan pod of
        (None, h) \<Rightarrow>
          (Some (fmt_Errorf ''Pod %s can't be rescheduled on any existing spot node.''
                   [podId c (podH h pod)]),
           w\<lparr>heap := h\<rparr>)
      | (Some spotNodeInfo, h) \<Rightarrow>
          planPods c
            ((emit (Infof ''Pod %s can be rescheduled on %v, adding to plan.''
                      [Str (podId c (podH h pod)), Str (Name (Node (infoH h spotNodeInfo)))])
                (w\<lparr>heap := h\<rparr>))
               \<lparr>heap := AddPod c h spotNodeInfo pod\<rparr>)
            nodePlan pods)"

text \<open>\<^verbatim>\<open>buildDrainPlan\<close> (lines 279-299).\<close>

definition buildDrainPlan ::
  "('p, 'n) collab \<Rightarrow> ('p, 'n) world \<Rightarrow> addr list \<Rightarrow> addr list \<Rightarrow> error option \<times> ('p, 'n) world" where
  "buildDrainPlan c w nodeInfos pods =
     (case CopyNodeInfos c (heap w) nodeInfos of
        ((nodePlan, Some err), h) \<Rightarrow> (Some err, w\<lparr>heap := h\<rparr>)
      | ((nodePlan, None), h) \<Rightarrow> planPods c (w\<lparr>heap := h\<rparr>) nodePlan pods)"


section \<open>The \<^verbatim>\<open>nodes\<close> package\<close>

text \<open>
  Modelled from the spec: \<^verbatim>\<open>NodeInfoArray.CopyNodeInfos\<close> of package \<^verbatim>\<open>nodes\<close>, which is not
  among the source files.  The spec asks for an independent deep copy of the array: a new
  NodeInfo per entry, in the same order, each with its own pod collection.  Whether the call
  fails is the cluster client's business and is given as \<open>failure\<close>.
\<close>

fun copyInfos :: "('p, 'n) heap \<Rightarrow> addr list \<Rightarrow> addr list \<times> ('p, 'n) heap" where
  "copyInfos h [] = ([], h)"
| "copyInfos h (a # as) =
     (let new = nextInfo h;
          h1 = h\<lparr>infoH := (infoH h)(new := \<lparr>Node = Node (infoH h a), Pods = Pods (infoH h a)\<rparr>),
                 nextInfo := Suc new\<rparr>;
          (arr, h2) = copyInfos h1 as
      in (new # arr, h2))"

text \<open>Modelled from the spec: \<^verbatim>\<open>CopyNodeInfos\<close> as the buildDrainPlan of the source calls it,
  returning the copy and a nil error, or no copy and the error of the client.\<close>

definition CopyNodeInfos_spec ::
  "error option \<Rightarrow> ('p, 'n) heap \<Rightarrow> addr list \<Rightarrow> (addr list \<times> error option) \<times> ('p, 'n) heap" where
  "CopyNodeInfos_spec failure h arr =
     (case failure of
        Some err \<Rightarrow> (([], Some err), h)
      | None \<Rightarrow> (let (plan, h') = copyInfos h arr in ((plan, None), h')))"

text \<open>
  Modelled from the spec: \<^verbatim>\<open>NodeInfo.AddPod\<close> of package \<^verbatim>\<open>nodes\<close>, which is not among the
  source files.  The spec has the pod appended to the tentative pod set of the NodeInfo.
\<close>

definition AddPod_spec :: "('p, 'n) heap \<Rightarrow> addr \<Rightarrow> addr \<Rightarrow> ('p, 'n) heap" where
  "AddPod_spec h nodeInfo pod =
     h\<lparr>infoH := (infoH h)(nodeInfo := (infoH h nodeInfo)\<lparr>Pods := Pods (infoH h nodeInfo) @ [pod]\<rparr>)\<rparr>"

text \<open>Modelled from the spec: the collaborators of planning with the two methods of package
  \<^verbatim>\<open>nodes\<close> as above; the predicate checker and \<open>podId\<close> stay as given.\<close>

definition nodesPackage :: "error option \<Rightarrow> ('p, 'n) collab \<Rightarrow> ('p, 'n) collab" where
  "nodesPackage failure c = c\<lparr>CopyNodeInfos := CopyNodeInfos_spec failure, AddPod := AddPod_spec\<rparr>"

section \<open>The second control loop\<close>

text \<open>
  The second \<^verbatim>\<open>main\<close> of the source plans inline.  It copies the spot array (line 491, the
  same \<open>CopyNodeInfos\<close>, there spelt \<^verbatim>\<open>copyNodeInfos\<close>) and then runs the loop below over the
  pods (lines 509-525, with \<^verbatim>\<open>addPod\<close> for \<open>AddPod\<close>), which leaves its verdict in the flag
  \<^verbatim>\<open>unmoveablePods\<close>.  Its \<^verbatim>\<open>findSpotNodeForPod\<close> is at lines 574-588.
\<close>

fun findSpotNodeForPod2 ::
  "('p, 'n) collab \<Rightarrow> ('p, 'n) heap \<Rightarrow> addr list \<Rightarrow> addr \<Rightarrow> addr option \<times> ('p, 'n) heap" where
  "findSpotNodeForPod2 c h [] pod = (None, h)"
| "findSpotNodeForPod2 c h (nodeInfo # nodeInfos) pod =
     (let kubeNodeInfo = SetNode (NewNodeInfo (Pods (infoH h nodeInfo))) (Node (infoH h nodeInfo));
          h' = clearNodeName h pod
      in if CheckPredicates c (podH h') pod kubeNodeInfo = None then (Some nodeInfo, h')
         else findSpotNodeForPod2 c h' nodeInfos pod)"

fun inlinePods ::
  "('p, 'n) collab \<Rightarrow> ('p, 'n) world \<Rightarrow> addr list \<Rightarrow> addr list \<Rightarrow> bool \<times> ('p, 'n) world" where
  "inlinePods c w nodePlan [] = (False, w)"
| "inlinePods c w nodePlan (pod # pods) =
     (case findSpotNodeForPod2 c (heap w) nodePlan pod of
        (None, h) \<Rightarrow>
          (True,
           emit (Infof ''Pod %s can't be rescheduled on any existing spot node. This node cannot be drained.''
                   [Str (podId c (podH h pod))])
             (w\<lparr>heap := h\<rparr>))
      | (Some spotNodeInfo, h) \<Rightarrow>
          inlinePods c
            ((emit (Infof ''Pod %s can be rescheduled on %v, adding to plan.''
                      [Str (podId c (podH h pod)), Str (Name (Node (infoH h spotNodeInfo)))])
                (w\<lparr>heap := h\<rparr>))
               \<lparr>heap := AddPod c h spotNodeInfo pod\<rparr>)
            nodePlan pods)"

section \<open>The control loop\<close>

text \<open>The flags the loop reads.  The grace period and the eviction timeout are handed to
  the drain executor unchanged and nothing else reads them.\<close>

record config =
  nodeDrainDelay :: int
  OnDemandNodeLabel :: string
  SpotNodeLabel :: string

text \<open>\<^verbatim>\<open>nodes.NodeMap\<close>, read at its two keys.\<close>

record NodeMap =
  OnDemand :: "addr list"
  Spot :: "addr list"

text \<open>
  What the cluster answers during one cycle.  Each lister returns as Go does, a value and
  an error.  \<open>now\<close> is the clock when the cooldown is checked, \<open>drainDone\<close> the clock when
  the drain executor has returned.  The NodeInfo objects of the node map are in the store
  when the cycle runs.
\<close>

record ('p, 'n, 'b) env =
  now :: int
  unschedulablePods :: "addr list \<times> error option"
  allNodes :: "'n Node list \<times> error option"
  nodeMapOf :: "'n Node list \<Rightarrow> NodeMap \<times> error option"
  allPDBs :: "'b list \<times> error option"
  GetPodsForDeletionOnNodeDrain :: "(addr \<Rightarrow> 'p Pod) \<Rightarrow> addr list \<Rightarrow> 'b list \<Rightarrow> addr list \<times> error option"
  drainResult :: "'n Node \<Rightarrow> addr list \<Rightarrow> error option"
  drainDone :: int

text \<open>\<^verbatim>\<open>drainNode\<close> (lines 303-314).\<close>

definition drainNode ::
  "config \<Rightarrow> ('p, 'n, 'b) env \<Rightarrow> ('p, 'n) world \<Rightarrow> 'n Node \<Rightarrow> addr list \<Rightarrow> error option \<times> ('p, 'n) world" where
  "drainNode cfg e w node pods =
     (let w1 = emit (DrainNode node pods) w
      in case drainResult e node pods of
           Some err \<Rightarrow>
             (Some err,
              (emit (UpdateNodeDrainCount ''Failure'' (Name node)) w1)
                \<lparr>nextDrainTime := drainDone e + nodeDrainDelay cfg\<rparr>)
         | None \<Rightarrow>
             (None,
              (emit (UpdateNodeDrainCount ''Success'' (Name node)) w1)
                \<lparr>nextDrainTime := drainDone e + nodeDrainDelay cfg\<rparr>))"

text \<open>\<^verbatim>\<open>updateSpotNodeMetrics\<close> (lines 319-330).\<close>

fun updateSpotNodeMetrics ::
  "config \<Rightarrow> ('p, 'n, 'b) env \<Rightarrow> ('p, 'n) world \<Rightarrow> addr list \<Rightarrow> 'b list \<Rightarrow> ('p, 'n) world" where
  "updateSpotNodeMetrics cfg e w [] pdbs = w"
| "updateSpotNodeMetrics cfg e w (nodeInfo # spotNodeInfos) pdbs =
     (case GetPodsForDeletionOnNodeDrain e (podH (heap w)) (Pods (infoH (heap w) nodeInfo)) pdbs of
        (podsOnNode, Some err) \<Rightarrow>
          updateSpotNodeMetrics cfg e
            (emit (Errorf ''Failed to get pods on spot node: %v'' [Err err]) w) spotNodeInfos pdbs
      | (podsOnNode, None) \<Rightarrow>
          updateSpotNodeMetrics cfg e
            (emit (UpdateNodePodsCount (SpotNodeLabel cfg) (Name (Node (infoH (heap w) nodeInfo)))
                     (length podsOnNode)) w)
            spotNodeInfos pdbs)"

text \<open>The loop over the on-demand nodes (lines 189-223): \<^verbatim>\<open>continue\<close> goes on with the
  rest of the list, \<^verbatim>\<open>break\<close> returns.\<close>

fun processNodes ::
  "('p, 'n) collab \<Rightarrow> config \<Rightarrow> ('p, 'n, 'b) env \<Rightarrow> ('p, 'n) world \<Rightarrow> addr list \<Rightarrow> 'b list \<Rightarrow>
   addr list \<Rightarrow> ('p, 'n) world" where
  "processNodes c cfg e w spotNodeInfos pdbs [] = w"
| "processNodes c cfg e w spotNodeInfos pdbs (nodeInfo # onDemandNodeInfos) =
     (case GetPodsForDeletionOnNodeDrain e (podH (heap w)) (Pods (infoH (heap w) nodeInfo)) pdbs of
        (podsForDeletion, Some err) \<Rightarrow>
          processNodes c cfg e
            (emit (Errorf ''Failed to get pods for consideration: %v'' [Err err]) w)
            spotNodeInfos pdbs onDemandNodeInfos
      | (podsForDeletion, None) \<Rightarrow>
          (let w1 = emit (UpdateNodePodsCount (OnDemandNodeLabel cfg)
                            (Name (Node (infoH (heap w) nodeInfo))) (length podsForDeletion)) w
           in if length podsForDeletion < 1 then
                processNodes c cfg e
                  (emit (Infof ''No pods on %s, skipping.''
                           [Str (Name (Node (infoH (heap w1) nodeInfo)))]) w1)
                  spotNodeInfos pdbs onDemandNodeInfos
              else
                (let w2 = emit (Infof ''Considering %s for removal''
                                  [Str (Name (Node (infoH (heap w1) nodeInfo)))]) w1
                 in case buildDrainPlan c w2 spotNodeInfos podsForDeletion of
                      (Some err, w3) \<Rightarrow>
                        processNodes c cfg e (emit (Errorf ''Failed to build plan: %v'' [Err err]) w3)
                          spotNodeInfos pdbs onDemandNodeInfos
                    | (None, w3) \<Rightarrow>
                        (let w4 = emit (Infof ''All pods on %v can be moved. Will drain node.''
                                          [Str (Name (Node (infoH (heap w3) nodeInfo)))]) w3
                         in case drainNode cfg e w4 (Node (infoH (heap w4) nodeInfo)) podsForDeletion of
                              (Some err, w5) \<Rightarrow> emit (Errorf ''Failed to drain node: %v'' [Err err]) w5
                            | (None, w5) \<Rightarrow> w5))))"

text \<open>One turn of the \<^verbatim>\<open>for\<close>/\<^verbatim>\<open>select\<close> of \<^verbatim>\<open>main\<close> (lines 131-226), entered when the
  housekeeping timer fires.\<close>

definition cycle ::
  "('p, 'n) collab \<Rightarrow> config \<Rightarrow> ('p, 'n, 'b) env \<Rightarrow> ('p, 'n) world \<Rightarrow> ('p, 'n) world" where
  "cycle c cfg e w =
     (if nextDrainTime w - now e > 0 then
        emit (Infof ''Waiting %s for drain delay timer.'' [Dur (nextDrainTime w - now e)]) w
      else
        (let w1 = emit UnschedulablePodLister_List w;
             w2 = (case snd (unschedulablePods e) of
                     Some err \<Rightarrow> emit (Errorf ''Failed to get unschedulable pods: %v'' [Err err]) w1
                   | None \<Rightarrow> w1)
         in if length (fst (unschedulablePods e)) > 0 then
              emit (Infof ''Waiting for unschedulable pods to be scheduled.'' []) w2
            else
              (let w3 = emit NodeLister_List (emit (Infof ''Starting node processing.'' []) w2)
               in case allNodes e of
                    (nodes, Some err) \<Rightarrow> emit (Errorf ''Failed to list nodes: %v'' [Err err]) w3
                  | (nodes, None) \<Rightarrow>
                      (let w4 = emit NewNodeMap w3
                       in case nodeMapOf e nodes of
                            (nodeMap, Some err) \<Rightarrow>
                              emit (Errorf ''Failed to build node map; %v'' [Err err]) w4
                          | (nodeMap, None) \<Rightarrow>
                              (let w5 = emit PodDisruptionBudgetLister_List
                                          (emit (UpdateNodesMap (OnDemand nodeMap) (Spot nodeMap)) w4)
                               in case allPDBs e of
                                    (pdbs, Some err) \<Rightarrow>
                                      emit (Errorf ''Failed to list PDBs: %v'' [Err err]) w5
                                  | (pdbs, None) \<Rightarrow>
                                      (let onDemandNodeInfos = OnDemand nodeMap;
                                           spotNodeInfos = Spot nodeMap;
                                           w6 = updateSpotNodeMetrics cfg e w5 spotNodeInfos pdbs;
                                           w7 = (if length onDemandNodeInfos < 1
                                                 then emit (Infof ''No nodes to process.'' []) w6
                                                 else w6);
                                           w8 = processNodes c cfg e w7 spotNodeInfos pdbs
                                                  onDemandNodeInfos
                                       in emit (Infof ''Finished processing nodes.'' []) w8))))))"

text \<open>The loop runs for ever; a run is what it does on the first timer ticks, one
  environment per tick.\<close>

fun run ::
  "('p, 'n) collab \<Rightarrow> config \<Rightarrow> ('p, 'n, 'b) env list \<Rightarrow> ('p, 'n) world \<Rightarrow> ('p, 'n) world" where
  "run c cfg [] w = w"
| "run c cfg (e # es) w = run c cfg es (cycle c cfg e w)"


section \<open>Notions used in the statements\<close>

text \<open>The feasibility predicate succeeds for \<open>pod\<close> on \<open>nodeInfo\<close> in store \<open>h\<close>: the test of
  lines 263-270, on the occupancy the NodeInfo has in \<open>h\<close>.\<close>

definition feasible :: "('p, 'n) collab \<Rightarrow> ('p, 'n) heap \<Rightarrow> addr \<Rightarrow> addr \<Rightarrow> bool" where
  "feasible c h nodeInfo pod \<longleftrightarrow>
     CheckPredicates c (podH (clearNodeName h pod)) pod
       (SetNode (NewNodeInfo (Pods (infoH h nodeInfo))) (Node (infoH h nodeInfo))) = None"

text \<open>The world in which the loop of \<^verbatim>\<open>buildDrainPlan\<close> goes on after it has placed \<open>pod\<close> on
  \<open>spotNodeInfo\<close> (lines 293-294).\<close>

definition placed ::
  "('p, 'n) collab \<Rightarrow> ('p, 'n) world \<Rightarrow> ('p, 'n) heap \<Rightarrow> addr \<Rightarrow> addr \<Rightarrow> ('p, 'n) world" where
  "placed c w h spotNodeInfo pod =
     (emit (Infof ''Pod %s can be rescheduled on %v, adding to plan.''
              [Str (podId c (podH h pod)), Str (Name (Node (infoH h spotNodeInfo)))])
        (w\<lparr>heap := h\<rparr>))
       \<lparr>heap := AddPod c h spotNodeInfo pod\<rparr>"

text \<open>The destinations the loop of \<^verbatim>\<open>buildDrainPlan\<close> assigns, one per pod placed, in the
  order of the pods, up to the first pod it cannot place.\<close>

fun destinations ::
  "('p, 'n) collab \<Rightarrow> ('p, 'n) heap \<Rightarrow> addr list \<Rightarrow> addr list \<Rightarrow> addr list" where
  "destinations c h nodePlan [] = []"
| "destinations c h nodePlan (pod # pods) =
     (case findSpotNodeForPod c h nodePlan pod of
        (None, h') \<Rightarrow> []
      | (Some spotNodeInfo, h') \<Rightarrow>
          spotNodeInfo # destinations c (AddPod c h' spotNodeInfo pod) nodePlan pods)"

section \<open>Notions used in the statements about the loop\<close>

text \<open>The drain attempts of a world are the calls of the drain executor in its trace.\<close>

fun isDrainNode :: "'n event \<Rightarrow> bool" where
  "isDrainNode (DrainNode node pods) = True"
| "isDrainNode ev = False"

definition drainAttempts :: "('p, 'n) world \<Rightarrow> 'n event list" where
  "drainAttempts w = filter isDrainNode (trace w)"


text \<open>What one cycle adds to the trace.\<close>

definition cycleEvents ::
  "('p, 'n) collab \<Rightarrow> config \<Rightarrow> ('p, 'n, 'b) env \<Rightarrow> ('p, 'n) world \<Rightarrow> 'n event list" where
  "cycleEvents c cfg e w = drop (length (trace w)) (trace (cycle c cfg e w))"

text \<open>An on-demand node can be drained in world \<open>w\<close>: the candidate filter answers without
  error, there is a pod to move, and the plan for its pods succeeds.\<close>

definition drainable ::
  "('p, 'n) collab \<Rightarrow> ('p, 'n, 'b) env \<Rightarrow> ('p, 'n) world \<Rightarrow> addr list \<Rightarrow> 'b list \<Rightarrow> addr \<Rightarrow> bool" where
  "drainable c e w spotNodeInfos pdbs nodeInfo =
     (case GetPodsForDeletionOnNodeDrain e (podH (heap w)) (Pods (infoH (heap w) nodeInfo)) pdbs of
        (podsForDeletion, Some err) \<Rightarrow> False
      | (podsForDeletion, None) \<Rightarrow>
          podsForDeletion \<noteq> [] \<and> fst (buildDrainPlan c w spotNodeInfos podsForDeletion) = None)"

text \<open>\<open>w'\<close> has the trace of \<open>w\<close> and more.\<close>

definition extends :: "('p, 'n) world \<Rightarrow> ('p, 'n) world \<Rightarrow> bool" where
  "extends w w' \<longleftrightarrow> (\<exists>evs. trace w' = trace w @ evs)"

text \<open>What a cycle can leave behind: no drain attempt and the old deadline, or one drain
  attempt and the deadline set from the clock at the end of the drain.\<close>

definition outcome :: "config \<Rightarrow> ('p, 'n, 'b) env \<Rightarrow> ('p, 'n) world \<Rightarrow> ('p, 'n) world \<Rightarrow> bool" where
  "outcome cfg e w r \<longleftrightarrow>
     extends w r \<and>
     ((drainAttempts r = drainAttempts w \<and> nextDrainTime r = nextDrainTime w) \<or>
      (\<exists>node pods. drainAttempts r = drainAttempts w @ [DrainNode node pods] \<and>
         nextDrainTime r = drainDone e + nodeDrainDelay cfg))"


section \<open>An example cluster\<close>

text \<open>
  Pods carry an identifier and a CPU request, nodes a CPU capacity, and a pod fits a node
  when the requests on the node stay within the capacity.  Pods 0 and 1 run on the on-demand
  node (NodeInfo 0) and ask for one CPU each; the spot nodes (NodeInfo 1 and 2) have one CPU
  free each.
\<close>

definition exCheck :: "(addr \<Rightarrow> (string \<times> nat) Pod) \<Rightarrow> addr \<Rightarrow> nat KubeNodeInfo \<Rightarrow> error option" where
  "exCheck ps pod k =
     (case knode k of
        None \<Rightarrow> Some (ClientError ''node not found'')
      | Some node \<Rightarrow>
          if sum_list (map (\<lambda>q. snd (PodRest (ps q))) (kpods k)) + snd (PodRest (ps pod)) \<le> NodeRest node
          then None else Some (ClientError ''Insufficient cpu''))"

definition exCollab :: "(string \<times> nat, nat) collab" where
  "exCollab = \<lparr>CheckPredicates = exCheck, CopyNodeInfos = CopyNodeInfos_spec None,
               AddPod = AddPod_spec, podId = (\<lambda>p. fst (PodRest p))\<rparr>"

definition exHeap :: "(string \<times> nat, nat) heap" where
  "exHeap =
     \<lparr>podH = (\<lambda>a. if a = 0 then \<lparr>NodeName = ''ondemand-1'', PodRest = (''default_a'', 1)\<rparr>
                  else \<lparr>NodeName = ''ondemand-1'', PodRest = (''default_b'', 1)\<rparr>),
      infoH = (\<lambda>a. if a = 0 then \<lparr>Node = \<lparr>Name = ''ondemand-1'', NodeRest = 2\<rparr>, Pods = [0, 1]\<rparr>
                   else if a = 1 then \<lparr>Node = \<lparr>Name = ''spot-1'', NodeRest = 1\<rparr>, Pods = []\<rparr>
                   else \<lparr>Node = \<lparr>Name = ''spot-2'', NodeRest = 1\<rparr>, Pods = []\<rparr>),
      nextInfo = 3\<rparr>"

definition exWorld :: "(string \<times> nat, nat) world" where
  "exWorld = \<lparr>heap = exHeap, nextDrainTime = 0, trace = []\<rparr>"

text \<open>
  The same cluster with a second on-demand node (NodeInfo 3), one pod on each on-demand
  node, and what the cluster answers in a cycle in which nothing fails: the clock is past
  the deadline, no pod is unschedulable, every pod of a node is a candidate, and the drain
  succeeds.
\<close>

definition exHeap2 :: "(string \<times> nat, nat) heap" where
  "exHeap2 =
     exHeap\<lparr>podH := (podH exHeap)(1 := \<lparr>NodeName = ''ondemand-2'', PodRest = (''default_b'', 1)\<rparr>),
            infoH := (infoH exHeap)
              (0 := \<lparr>Node = \<lparr>Name = ''ondemand-1'', NodeRest = 2\<rparr>, Pods = [0]\<rparr>,
               3 := \<lparr>Node = \<lparr>Name = ''ondemand-2'', NodeRest = 2\<rparr>, Pods = [1]\<rparr>),
            nextInfo := 4\<rparr>"

definition exWorld2 :: "(string \<times> nat, nat) world" where
  "exWorld2 = \<lparr>heap = exHeap2, nextDrainTime = 1000, trace = []\<rparr>"

definition exConfig :: config where
  "exConfig = \<lparr>nodeDrainDelay = 600, OnDemandNodeLabel = ''node-role.kubernetes.io/worker'',
                SpotNodeLabel = ''node-role.kubernetes.io/spot-worker''\<rparr>"

definition exEnv :: "(string \<times> nat, nat, unit) env" where
  "exEnv =
     \<lparr>now = 2000,
      unschedulablePods = ([], None),
      allNodes = ([\<lparr>Name = ''ondemand-1'', NodeRest = 2\<rparr>, \<lparr>Name = ''ondemand-2'', NodeRest = 2\<rparr>,
                   \<lparr>Name = ''spot-1'', NodeRest = 1\<rparr>, \<lparr>Name = ''spot-2'', NodeRest = 1\<rparr>], None),
      nodeMapOf = (\<lambda>nodes. (\<lparr>OnDemand = [0, 3], Spot = [1, 2]\<rparr>, None)),
      allPDBs = ([], None),
      GetPodsForDeletionOnNodeDrain = (\<lambda>ps pods pdbs. (pods, None)),
      drainResult = (\<lambda>node pods. None),
      drainDone = 2100\<rparr>"

text \<open>The same answers, except that listing the unschedulable pods fails.\<close>

definition exEnvListError :: "(string \<times> nat, nat, unit) env" where
  "exEnvListError = exEnv\<lparr>unschedulablePods := ([], Some (ClientError ''timeout''))\<rparr>"

text \<open>
  The example cluster with a \<^verbatim>\<open>spot-1\<close> of two CPUs on which a third pod, \<^verbatim>\<open>default_c\<close>
  (pod 2, one CPU), already runs: each spot node has one CPU free, and the pod list of
  \<^verbatim>\<open>spot-1\<close> is not empty.
\<close>

definition exHeap3 :: "(string \<times> nat, nat) heap" where
  "exHeap3 =
     exHeap\<lparr>podH := (podH exHeap)(2 := \<lparr>NodeName = ''spot-1'', PodRest = (''default_c'', 1)\<rparr>),
            infoH := (infoH exHeap)(1 := \<lparr>Node = \<lparr>Name = ''spot-1'', NodeRest = 2\<rparr>, Pods = [2]\<rparr>)\<rparr>"

definition exWorld3 :: "(string \<times> nat, nat) world" where
  "exWorld3 = \<lparr>heap = exHeap3, nextDrainTime = 0, trace = []\<rparr>"

section \<open>Lemmas about planning\<close>

lemma emit_simps [simp]:
  "heap (emit ev w) = heap w"
  "nextDrainTime (emit ev w) = nextDrainTime w"
  "trace (emit ev w) = trace w @ [ev]"
  by (simp_all add: emit_def)

lemma clearNodeName_simps [simp]:
  "infoH (clearNodeName h p) = infoH h"
  "nextInfo (clearNodeName h p) = nextInfo h"
  "clearNodeName (clearNodeName h p) p = clearNodeName h p"
  "podH (clearNodeName h p) p = (podH h p)\<lparr>NodeName := []\<rparr>"
  "q \<noteq> p \<Longrightarrow> podH (clearNodeName h p) q = podH h q"
  by (simp_all add: clearNodeName_def)

lemma feasible_clear [simp]: "feasible c (clearNodeName h p) n p = feasible c h n p"
  by (simp add: feasible_def)

lemma findSpot_find:
  "findSpotNodeForPod c h ns p =
     (find (\<lambda>n. feasible c h n p) ns, if ns = [] then h else clearNodeName h p)"
proof (induction ns arbitrary: h)
  case Nil
  show ?case by simp
next
  case (Cons n ns)
  show ?case
    by (simp add: Cons.IH Let_def feasible_def[symmetric])
qed

lemma findSpot2_eq: "findSpotNodeForPod2 c h ns p = findSpotNodeForPod c h ns p"
  by (induction ns arbitrary: h) (simp_all add: Let_def)

lemma placed_simps:
  "heap (placed c w h n p) = AddPod c h n p"
  "nextDrainTime (placed c w h n p) = nextDrainTime w"
  "trace (placed c w h n p) =
     trace w @ [Infof ''Pod %s can be rescheduled on %v, adding to plan.''
                  [Str (podId c (podH h p)), Str (Name (Node (infoH h n)))]]"
  by (simp_all add: placed_def)

lemma planPods_Cons:
  "planPods c w plan (pod # pods) =
     (case findSpotNodeForPod c (heap w) plan pod of
        (None, h) \<Rightarrow>
          (Some (fmt_Errorf ''Pod %s can't be rescheduled on any existing spot node.''
                   [podId c (podH h pod)]),
           w\<lparr>heap := h\<rparr>)
      | (Some n, h) \<Rightarrow> planPods c (placed c w h n pod) plan pods)"
  by (simp add: placed_def split: prod.splits option.splits)

lemma destinations_Cons:
  "destinations c (heap w) plan (pod # pods) =
     (case findSpotNodeForPod c (heap w) plan pod of
        (None, h) \<Rightarrow> []
      | (Some n, h) \<Rightarrow> n # destinations c (heap (placed c w h n pod)) plan pods)"
  by (simp add: placed_simps split: prod.splits option.splits)

lemmas plan_unfold = planPods.simps(1) planPods_Cons destinations.simps(1) destinations_Cons

lemma destinations_length: "length (destinations c h plan pods) \<le> length pods"
  by (induction pods arbitrary: h) (auto split: prod.splits option.splits)

lemma planPods_ok_iff:
  "fst (planPods c w plan pods) = None \<longleftrightarrow>
     length (destinations c (heap w) plan pods) = length pods"
  by (induction pods arbitrary: w)
     (auto simp del: planPods.simps destinations.simps simp add: plan_unfold
           split: prod.splits option.splits)

lemma planPods_stop1:
  "length (destinations c (heap w) plan pods) < length pods \<Longrightarrow>
   planPods c w plan pods =
     planPods c w plan (take (Suc (length (destinations c (heap w) plan pods))) pods)"
  by (induction pods arbitrary: w)
     (auto simp del: planPods.simps destinations.simps simp add: plan_unfold
           split: prod.splits option.splits)

lemma planPods_stop2:
  "length (destinations c (heap w) plan pods) < length pods \<Longrightarrow>
   fst (planPods c w plan (take (length (destinations c (heap w) plan pods)) pods)) = None"
  by (induction pods arbitrary: w)
     (auto simp del: planPods.simps destinations.simps simp add: plan_unfold
           split: prod.splits option.splits)

lemma planPods_stop3:
  "length (destinations c (heap w) plan pods) < length pods \<Longrightarrow>
   fst (findSpotNodeForPod c
          (heap (snd (planPods c w plan (take (length (destinations c (heap w) plan pods)) pods))))
          plan (pods ! length (destinations c (heap w) plan pods))) = None"
  by (induction pods arbitrary: w)
     (auto simp del: planPods.simps destinations.simps simp add: plan_unfold
           split: prod.splits option.splits)

lemma planPods_stop4:
  "length (destinations c (heap w) plan pods) < length pods \<Longrightarrow>
   fst (planPods c w plan pods) =
     Some (fmt_Errorf ''Pod %s can't be rescheduled on any existing spot node.''
             [podId c (podH (heap (snd (planPods c w plan pods)))
                         (pods ! length (destinations c (heap w) plan pods)))])"
  by (induction pods arbitrary: w)
     (auto simp del: planPods.simps destinations.simps simp add: plan_unfold
           split: prod.splits option.splits)

lemma inlinePods_planPods:
  "fst (inlinePods c w plan pods) = (fst (planPods c w plan pods) \<noteq> None) \<and>
   heap (snd (inlinePods c w plan pods)) = heap (snd (planPods c w plan pods)) \<and>
   (fst (planPods c w plan pods) = None \<longrightarrow> snd (inlinePods c w plan pods) = snd (planPods c w plan pods))"
  by (induction pods arbitrary: w) (auto simp: findSpot2_eq split: prod.splits option.splits)

lemma findSpot_None_iff:
  "fst (findSpotNodeForPod c h ns p) = None \<longleftrightarrow> (\<forall>n\<in>set ns. \<not> feasible c h n p)"
  by (auto simp: findSpot_find find_None_iff)

lemma copyInfos_podH [simp]: "podH (snd (copyInfos h arr)) = podH h"
  by (induction arr arbitrary: h) (simp_all add: Let_def case_prod_beta)

lemma copyInfos_nextInfo [simp]: "nextInfo (snd (copyInfos h arr)) = nextInfo h + length arr"
  by (induction arr arbitrary: h) (simp_all add: Let_def case_prod_beta)

lemma copyInfos_length [simp]: "length (fst (copyInfos h arr)) = length arr"
  by (induction arr arbitrary: h) (simp_all add: Let_def case_prod_beta)

lemma copyInfos_fresh: "n \<in> set (fst (copyInfos h arr)) \<Longrightarrow> nextInfo h \<le> n"
  by (induction arr arbitrary: h) (fastforce simp: Let_def case_prod_beta)+

lemma copyInfos_old: "a < nextInfo h \<Longrightarrow> infoH (snd (copyInfos h arr)) a = infoH h a"
  by (induction arr arbitrary: h) (simp_all add: Let_def case_prod_beta)

lemma nodesPackage_simps [simp]:
  "CheckPredicates (nodesPackage f c) = CheckPredicates c"
  "podId (nodesPackage f c) = podId c"
  "AddPod (nodesPackage f c) = AddPod_spec"
  "CopyNodeInfos (nodesPackage f c) = CopyNodeInfos_spec f"
  by (simp_all add: nodesPackage_def)

lemma AddPod_spec_simps [simp]:
  "podH (AddPod_spec h n p) = podH h"
  "nextInfo (AddPod_spec h n p) = nextInfo h"
  "infoH (AddPod_spec h n p) n = (infoH h n)\<lparr>Pods := Pods (infoH h n) @ [p]\<rparr>"
  "a \<noteq> n \<Longrightarrow> infoH (AddPod_spec h n p) a = infoH h a"
  by (simp_all add: AddPod_spec_def)

lemma find_in_set: "find P xs = Some x \<Longrightarrow> x \<in> set xs"
  by (auto simp: find_Some_iff)

lemma planPods_info_frame:
  "AddPod c = AddPod_spec \<Longrightarrow> \<forall>n\<in>set plan. a \<noteq> n \<Longrightarrow>
   infoH (heap (snd (planPods c w plan pods))) a = infoH (heap w) a"
proof (induction pods arbitrary: w)
  case Nil
  show ?case by simp
next
  case (Cons p pods)
  show ?case
  proof (cases "find (\<lambda>n. feasible c (heap w) n p) plan")
    case None
    then show ?thesis by (simp add: findSpot_find)
  next
    case (Some n)
    then have "a \<noteq> n" using Cons.prems(2) find_in_set by fastforce
    then show ?thesis
      using Some Cons.prems Cons.IH [OF Cons.prems] by (simp add: findSpot_find)
  qed
qed

lemma planPods_pod_frame:
  "AddPod c = AddPod_spec \<Longrightarrow> q \<notin> set pods \<Longrightarrow>
   podH (heap (snd (planPods c w plan pods))) q = podH (heap w) q"
proof (induction pods arbitrary: w)
  case Nil
  show ?case by simp
next
  case (Cons p pods)
  then have qp: "q \<noteq> p" and q: "q \<notin> set pods" by auto
  show ?case
    using qp Cons.IH [OF Cons.prems(1) q] Cons.prems(1)
    by (cases "find (\<lambda>n. feasible c (heap w) n p) plan") (simp_all add: findSpot_find)
qed

lemma planPods_nextDrainTime [simp]: "nextDrainTime (snd (planPods c w plan pods)) = nextDrainTime w"
  by (induction pods arbitrary: w) (auto split: prod.splits option.splits)

lemma buildDrainPlan_nextDrainTime [simp]:
  "nextDrainTime (snd (buildDrainPlan c w nodeInfos pods)) = nextDrainTime w"
  by (simp add: buildDrainPlan_def split: prod.splits option.splits)

lemma buildDrainPlan_spec:
  "buildDrainPlan (nodesPackage f c) w nodeInfos pods =
     (case f of
        Some err \<Rightarrow> (Some err, w)
      | None \<Rightarrow> planPods (nodesPackage f c) (w\<lparr>heap := snd (copyInfos (heap w) nodeInfos)\<rparr>)
                  (fst (copyInfos (heap w) nodeInfos)) pods)"
  by (simp add: buildDrainPlan_def CopyNodeInfos_spec_def split: option.splits prod.splits)

lemma planPods_append:
  "planPods c w plan (xs @ ys) =
     (case planPods c w plan xs of
        (None, w') \<Rightarrow> planPods c w' plan ys
      | (Some err, w') \<Rightarrow> (Some err, w'))"
  by (induction xs arbitrary: w) (auto split: prod.splits option.splits)

lemma planPods_single_spec:
  "AddPod c = AddPod_spec \<Longrightarrow>
   planPods c w plan [p] =
     (case find (\<lambda>n. feasible c (heap w) n p) plan of
        None \<Rightarrow>
          (Some (fmt_Errorf ''Pod %s can't be rescheduled on any existing spot node.''
                   [podId c (podH (if plan = [] then heap w else clearNodeName (heap w) p) p)]),
           w\<lparr>heap := (if plan = [] then heap w else clearNodeName (heap w) p)\<rparr>)
      | Some spot \<Rightarrow> (None, placed c w (clearNodeName (heap w) p) spot p))"
  by (auto simp: findSpot_find placed_def split: option.splits dest: find_in_set)

lemma feasible_nodesPackage [simp]: "feasible (nodesPackage f c) = feasible c"
  by (simp add: feasible_def fun_eq_iff)

lemmas ex_defs = exCollab_def exWorld_def exHeap_def exCheck_def buildDrainPlan_def
  CopyNodeInfos_spec_def AddPod_spec_def clearNodeName_def NewNodeInfo_def SetNode_def emit_def
  feasible_def nodesPackage_def Let_def

lemma planPods_podH:
  "AddPod c = AddPod_spec \<Longrightarrow> plan \<noteq> [] \<Longrightarrow>
   podH (heap (snd (planPods c w plan pods))) q =
     (if q \<in> set (take (Suc (length (destinations c (heap w) plan pods))) pods)
      then (podH (heap w) q)\<lparr>NodeName := []\<rparr> else podH (heap w) q)"
proof (induction pods arbitrary: w)
  case Nil
  show ?case by simp
next
  case (Cons p pods)
  note IH = Cons.IH [OF Cons.prems]
  show ?case
  proof (cases "find (\<lambda>n. feasible c (heap w) n p) plan")
    case None
    then show ?thesis
      using Cons.prems by (simp add: findSpot_find)
  next
    case (Some n)
    let ?w' = "placed c w (clearNodeName (heap w) p) n p"
    have hw': "podH (heap ?w') = podH (clearNodeName (heap w) p)"
      using Cons.prems by (simp add: placed_simps)
    have "podH (heap (snd (planPods c w plan (p # pods)))) q =
            podH (heap (snd (planPods c ?w' plan pods))) q"
      using Some Cons.prems unfolding planPods_Cons by (simp add: findSpot_find)
    moreover have "destinations c (heap w) plan (p # pods) = n # destinations c (heap ?w') plan pods"
      using Some Cons.prems unfolding destinations_Cons by (simp add: findSpot_find)
    ultimately show ?thesis
      using IH [of ?w'] unfolding hw' by (cases "q = p") simp_all
  qed
qed

lemmas ex3_defs = exWorld3_def exHeap3_def

lemma destinations_take:
  "destinations c h plan (take m pods) = take m (destinations c h plan pods)"
proof (induction pods arbitrary: h m)
  case Nil
  show ?case by simp
next
  case (Cons p pods)
  show ?case
    by (cases m) (simp_all add: Cons.IH split: prod.splits option.splits)
qed

lemma planPods_prefix_ok:
  "m \<le> length pods \<Longrightarrow>
   fst (planPods c w plan (take m pods)) = None \<longleftrightarrow> m \<le> length (destinations c (heap w) plan pods)"
  using planPods_ok_iff [of c w plan "take m pods"]
  by (auto simp: destinations_take min_def split: if_splits)

lemma planPods_step:
  "m < length (destinations c (heap w) plan pods) \<Longrightarrow>
   find (\<lambda>n. feasible c (heap (snd (planPods c w plan (take m pods)))) n (pods ! m)) plan =
     Some (destinations c (heap w) plan pods ! m) \<and>
   heap (snd (planPods c w plan (take (Suc m) pods))) =
     AddPod c (clearNodeName (heap (snd (planPods c w plan (take m pods)))) (pods ! m))
       (destinations c (heap w) plan pods ! m) (pods ! m)"
proof (induction pods arbitrary: w m)
  case Nil
  then show ?case by simp
next
  case (Cons p pods)
  obtain r h where f: "findSpotNodeForPod c (heap w) plan p = (r, h)"
    by (cases "findSpotNodeForPod c (heap w) plan p")
  from Cons.prems f obtain n where r: "r = Some n"
    by (cases r) auto
  have fnd: "find (\<lambda>n. feasible c (heap w) n p) plan = Some n"
    and h: "h = clearNodeName (heap w) p"
    using f r by (auto simp: findSpot_find split: if_splits)
  let ?w' = "placed c w h n p"
  have d: "destinations c (heap w) plan (p # pods) = n # destinations c (heap ?w') plan pods"
    using f r unfolding destinations_Cons by simp
  have pl: "planPods c w plan (p # ps) = planPods c ?w' plan ps" for ps
    using f r unfolding planPods_Cons by simp
  show ?case
  proof (cases m)
    case 0
    then show ?thesis
      using fnd h d pl [of "[]"] by (simp add: placed_simps)
  next
    case (Suc m')
    then have "m' < length (destinations c (heap ?w') plan pods)"
      using Cons.prems d by simp
    from Cons.IH [OF this] show ?thesis
      using Suc d pl by simp
  qed
qed

lemma copyInfos_content:
  "\<forall>a\<in>set arr. a < nextInfo h \<Longrightarrow> j < length arr \<Longrightarrow>
   infoH (snd (copyInfos h arr)) (fst (copyInfos h arr) ! j) = infoH h (arr ! j)"
proof (induction arr arbitrary: h j)
  case Nil
  then show ?case by simp
next
  case (Cons a arr)
  let ?h1 = "h\<lparr>infoH := (infoH h)(nextInfo h := \<lparr>Node = Node (infoH h a), Pods = Pods (infoH h a)\<rparr>),
              nextInfo := Suc (nextInfo h)\<rparr>"
  have live1: "\<forall>a\<in>set arr. a < nextInfo ?h1"
    using Cons.prems(1) by auto
  show ?case
  proof (cases j)
    case 0
    have "infoH (snd (copyInfos ?h1 arr)) (nextInfo h) = infoH ?h1 (nextInfo h)"
      by (rule copyInfos_old) simp
    then show ?thesis
      using 0 by (simp add: Let_def case_prod_beta)
  next
    case (Suc j')
    then have j': "j' < length arr" using Cons.prems(2) by simp
    have "arr ! j' \<in> set arr" using j' by simp
    then have ne: "arr ! j' \<noteq> nextInfo h"
      using Cons.prems(1) by auto
    from Cons.IH [OF live1 j'] show ?thesis
      using Suc ne by (simp add: Let_def case_prod_beta)
  qed
qed

lemma planPods_occupancy:
  "AddPod c = AddPod_spec \<Longrightarrow>
   Node (infoH (heap (snd (planPods c w plan pods))) n) = Node (infoH (heap w) n) \<and>
   Pods (infoH (heap (snd (planPods c w plan pods))) n) =
     Pods (infoH (heap w) n) @
       map fst (filter (\<lambda>pd. snd pd = n) (zip pods (destinations c (heap w) plan pods)))"
proof (induction pods arbitrary: w)
  case Nil
  show ?case by simp
next
  case (Cons p pods)
  show ?case
  proof (cases "find (\<lambda>n. feasible c (heap w) n p) plan")
    case None
    then show ?thesis
      by (simp add: findSpot_find)
  next
    case (Some d)
    then have ne: "plan \<noteq> []" by auto
    let ?w' = "placed c w (clearNodeName (heap w) p) d p"
    have hw': "heap ?w' = AddPod_spec (clearNodeName (heap w) p) d p"
      using Cons.prems by (simp add: placed_simps)
    have pl: "planPods c w plan (p # pods) = planPods c ?w' plan pods"
      using Some ne unfolding planPods_Cons by (simp add: findSpot_find)
    have ds: "destinations c (heap w) plan (p # pods) = d # destinations c (heap ?w') plan pods"
      using Some ne unfolding destinations_Cons by (simp add: findSpot_find)
    show ?thesis
      unfolding pl ds using Cons.IH [OF Cons.prems, of ?w'] unfolding hw'
      by (cases "n = d") simp_all
  qed
qed

lemma plan_step:
  assumes "i < length pods"
    and "fst (buildDrainPlan (nodesPackage None c) w nodeInfos (take i pods)) = None"
  shows "let plan = fst (copyInfos (heap w) nodeInfos);
             before = heap (snd (buildDrainPlan (nodesPackage None c) w nodeInfos (take i pods)));
             after = buildDrainPlan (nodesPackage None c) w nodeInfos (take (Suc i) pods);
             pod = pods ! i
         in (case find (\<lambda>n. feasible c before n pod) plan of
               None \<Rightarrow> fst after \<noteq> None
             | Some spot \<Rightarrow>
                 (\<exists>j<length plan. plan ! j = spot \<and> feasible c before spot pod \<and>
                     (\<forall>j'<j. \<not> feasible c before (plan ! j') pod)) \<and>
                 fst after = None \<and>
                 heap (snd after) = AddPod_spec (clearNodeName before pod) spot pod \<and>
                 Pods (infoH (heap (snd after)) spot) = Pods (infoH before spot) @ [pod] \<and>
                 buildDrainPlan (nodesPackage None c) w nodeInfos pods =
                   planPods (nodesPackage None c) (snd after) plan (drop (Suc i) pods))"
proof -
  let ?c = "nodesPackage None c"
  let ?plan = "fst (copyInfos (heap w) nodeInfos)"
  let ?w0 = "w\<lparr>heap := snd (copyInfos (heap w) nodeInfos)\<rparr>"
  let ?pod = "pods ! i"
  have b: "buildDrainPlan ?c w nodeInfos ps = planPods ?c ?w0 ?plan ps" for ps
    by (simp add: buildDrainPlan_spec)
  obtain wi where wi: "planPods ?c ?w0 ?plan (take i pods) = (None, wi)"
    using assms(2) unfolding b by (cases "planPods ?c ?w0 ?plan (take i pods)") auto
  have split1: "take (Suc i) pods = take i pods @ [?pod]"
    using assms(1) by (simp add: take_Suc_conv_app_nth)
  have split2: "pods = take (Suc i) pods @ drop (Suc i) pods"
    by simp
  have step: "planPods ?c ?w0 ?plan (take (Suc i) pods) = planPods ?c wi ?plan [?pod]"
    unfolding split1 planPods_append wi by simp
  have whole: "planPods ?c ?w0 ?plan pods =
      (case planPods ?c ?w0 ?plan (take (Suc i) pods) of
         (None, w') \<Rightarrow> planPods ?c w' ?plan (drop (Suc i) pods)
       | (Some err, w') \<Rightarrow> (Some err, w'))"
    using planPods_append [of ?c ?w0 ?plan "take (Suc i) pods" "drop (Suc i) pods"]
    by simp
  have single: "planPods ?c wi ?plan [?pod] =
     (case find (\<lambda>n. feasible c (heap wi) n ?pod) ?plan of
        None \<Rightarrow>
          (Some (fmt_Errorf ''Pod %s can't be rescheduled on any existing spot node.''
                   [podId ?c (podH (if ?plan = [] then heap wi else clearNodeName (heap wi) ?pod) ?pod)]),
           wi\<lparr>heap := (if ?plan = [] then heap wi else clearNodeName (heap wi) ?pod)\<rparr>)
      | Some spot \<Rightarrow> (None, placed ?c wi (clearNodeName (heap wi) ?pod) spot ?pod))"
    using planPods_single_spec [of ?c wi ?plan ?pod] by simp
  show ?thesis
  proof (cases "find (\<lambda>n. feasible c (heap wi) n ?pod) ?plan")
    case None
    then show ?thesis
      unfolding Let_def b step single wi by simp
  next
    case (Some spot)
    have first: "\<exists>j<length ?plan. ?plan ! j = spot \<and> feasible c (heap wi) spot ?pod \<and>
                   (\<forall>j'<j. \<not> feasible c (heap wi) (?plan ! j') ?pod)"
      using Some unfolding find_Some_iff by blast
    show ?thesis
      unfolding Let_def b whole step single wi
      using Some first by (simp add: placed_simps)
  qed
qed

section \<open>Lemmas about the loop\<close>

lemma extends_refl [simp]: "extends w w"
  by (simp add: extends_def)

lemma extends_trans: "extends w w' \<Longrightarrow> extends w' w'' \<Longrightarrow> extends w w''"
  by (auto simp: extends_def)

lemma extends_emit [simp]: "extends w (emit ev w)"
  by (simp add: extends_def)

lemma extends_emit_trans: "extends w w' \<Longrightarrow> extends w (emit ev w')"
  by (auto simp: extends_def)

lemma extends_heap [simp]: "extends w (w'\<lparr>heap := h\<rparr>) = extends w w'"
  "extends (w\<lparr>heap := h\<rparr>) w' = extends w w'"
  by (simp_all add: extends_def)

lemma extends_ndt [simp]: "extends w (w'\<lparr>nextDrainTime := t\<rparr>) = extends w w'"
  by (simp add: extends_def)

lemma drainAttempts_simps [simp]:
  "drainAttempts (emit ev w) = drainAttempts w @ (if isDrainNode ev then [ev] else [])"
  "drainAttempts (w\<lparr>heap := h\<rparr>) = drainAttempts w"
  "drainAttempts (w\<lparr>nextDrainTime := t\<rparr>) = drainAttempts w"
  by (simp_all add: drainAttempts_def)

lemma planPods_extends: "extends w (snd (planPods c w plan pods))"
proof (induction pods arbitrary: w)
  case Nil
  show ?case by simp
next
  case (Cons p pods)
  show ?case
  proof (cases "findSpotNodeForPod c (heap w) plan p")
    case (Pair r h)
    show ?thesis
    proof (cases r)
      case None
      then show ?thesis using Pair by simp
    next
      case (Some n)
      have "extends w (placed c w h n p)"
        by (simp add: placed_def extends_emit_trans)
      then have "extends w (snd (planPods c (placed c w h n p) plan pods))"
        using Cons.IH [of "placed c w h n p"] extends_trans by blast
      then show ?thesis
        using Pair Some unfolding planPods_Cons by simp
    qed
  qed
qed

lemma planPods_extends_heap: "extends w (snd (planPods c (w\<lparr>heap := h\<rparr>) plan pods))"
  using planPods_extends [of "w\<lparr>heap := h\<rparr>" c plan pods] by simp

lemma planPods_drainAttempts [simp]: "drainAttempts (snd (planPods c w plan pods)) = drainAttempts w"
  by (induction pods arbitrary: w) (auto split: prod.splits option.splits)

lemma buildDrainPlan_extends: "extends w (snd (buildDrainPlan c w nodeInfos pods))"
  by (simp add: buildDrainPlan_def planPods_extends_heap split: prod.splits option.splits)

lemma buildDrainPlan_drainAttempts [simp]:
  "drainAttempts (snd (buildDrainPlan c w nodeInfos pods)) = drainAttempts w"
  by (simp add: buildDrainPlan_def split: prod.splits option.splits)

lemma planPods_heap_only:
  "heap w = heap w' \<Longrightarrow>
   fst (planPods c w plan pods) = fst (planPods c w' plan pods) \<and>
   heap (snd (planPods c w plan pods)) = heap (snd (planPods c w' plan pods))"
proof (induction pods arbitrary: w w')
  case Nil
  then show ?case by simp
next
  case (Cons p pods)
  show ?case
  proof (cases "findSpotNodeForPod c (heap w') plan p")
    case (Pair r h)
    show ?thesis
    proof (cases r)
      case None
      then show ?thesis using Pair Cons.prems by simp
    next
      case (Some n)
      have "heap (placed c w h n p) = heap (placed c w' h n p)"
        by (simp add: placed_simps)
      from Cons.IH [OF this] show ?thesis
        using Pair Some Cons.prems unfolding planPods_Cons by simp
    qed
  qed
qed

lemma buildDrainPlan_heap_only:
  "heap w = heap w' \<Longrightarrow>
   fst (buildDrainPlan c w nodeInfos pods) = fst (buildDrainPlan c w' nodeInfos pods)"
proof -
  assume eq: "heap w = heap w'"
  have "fst (planPods c (w\<lparr>heap := h\<rparr>) plan pods) = fst (planPods c (w'\<lparr>heap := h\<rparr>) plan pods)"
    for h plan
    using planPods_heap_only [of "w\<lparr>heap := h\<rparr>" "w'\<lparr>heap := h\<rparr>" c plan pods] by simp
  then show ?thesis
    using eq by (simp add: buildDrainPlan_def split: prod.splits option.splits)
qed

lemma drainable_heap_only:
  "heap w = heap w' \<Longrightarrow> drainable c e w spots pdbs n = drainable c e w' spots pdbs n"
  using buildDrainPlan_heap_only [of w w' c spots]
  by (simp add: drainable_def split: prod.splits option.splits)

lemma updateSpotNodeMetrics_heap [simp]:
  "heap (updateSpotNodeMetrics cfg e w spots pdbs) = heap w"
  by (induction spots arbitrary: w) (simp_all split: prod.splits option.splits)

lemma updateSpotNodeMetrics_nextDrainTime [simp]:
  "nextDrainTime (updateSpotNodeMetrics cfg e w spots pdbs) = nextDrainTime w"
  by (induction spots arbitrary: w) (simp_all split: prod.splits option.splits)

lemma updateSpotNodeMetrics_drainAttempts [simp]:
  "drainAttempts (updateSpotNodeMetrics cfg e w spots pdbs) = drainAttempts w"
  by (induction spots arbitrary: w) (simp_all split: prod.splits option.splits)

lemma updateSpotNodeMetrics_extends: "extends w (updateSpotNodeMetrics cfg e w spots pdbs)"
proof (induction spots arbitrary: w)
  case Nil
  show ?case by simp
next
  case (Cons n spots)
  have "extends w (updateSpotNodeMetrics cfg e (emit ev w) spots pdbs)" for ev
    using Cons.IH [of "emit ev w"] extends_emit [of w ev] extends_trans by blast
  then show ?case
    by (simp split: prod.splits option.splits)
qed

lemma drainNode_simps [simp]:
  "nextDrainTime (snd (drainNode cfg e w node pods)) = drainDone e + nodeDrainDelay cfg"
  "drainAttempts (snd (drainNode cfg e w node pods)) = drainAttempts w @ [DrainNode node pods]"
  "heap (snd (drainNode cfg e w node pods)) = heap w"
  "fst (drainNode cfg e w node pods) = drainResult e node pods"
  by (simp_all add: drainNode_def Let_def split: option.splits)

lemma drainNode_extends: "extends w (snd (drainNode cfg e w node pods))"
  by (simp add: drainNode_def Let_def extends_emit_trans split: option.splits)

lemma processNodes_Cons_cases:
  obtains (skip) w' where
      "\<not> drainable c e w spots pdbs n"
      "processNodes c cfg e w spots pdbs (n # ns) = processNodes c cfg e w' spots pdbs ns"
      "drainAttempts w' = drainAttempts w" "nextDrainTime w' = nextDrainTime w" "extends w w'"
  | (drain) node where
      "drainable c e w spots pdbs n"
      "drainAttempts (processNodes c cfg e w spots pdbs (n # ns)) =
         drainAttempts w @
           [DrainNode node (fst (GetPodsForDeletionOnNodeDrain e (podH (heap w)) (Pods (infoH (heap w) n)) pdbs))]"
      "nextDrainTime (processNodes c cfg e w spots pdbs (n # ns)) = drainDone e + nodeDrainDelay cfg"
      "extends w (processNodes c cfg e w spots pdbs (n # ns))"
proof (cases "GetPodsForDeletionOnNodeDrain e (podH (heap w)) (Pods (infoH (heap w) n)) pdbs")
  case (Pair pods err)
  show ?thesis
  proof (cases err)
    case (Some x)
    show ?thesis
      by (rule skip [of "emit (Errorf ''Failed to get pods for consideration: %v'' [Err x]) w"])
         (simp_all add: Pair Some drainable_def)
  next
    case None
    let ?name = "Name (Node (infoH (heap w) n))"
    let ?w1 = "emit (UpdateNodePodsCount (OnDemandNodeLabel cfg) ?name (length pods)) w"
    show ?thesis
    proof (cases "pods = []")
      case True
      show ?thesis
        by (rule skip [of "emit (Infof ''No pods on %s, skipping.'' [Str ?name]) ?w1"])
           (simp_all add: Pair None True drainable_def extends_emit_trans)
    next
      case False
      let ?w2 = "emit (Infof ''Considering %s for removal'' [Str ?name]) ?w1"
      have fst_eq: "fst (buildDrainPlan c ?w2 spots pods) = fst (buildDrainPlan c w spots pods)"
        by (rule buildDrainPlan_heap_only) simp
      have ext2: "extends w ?w2"
        by (simp add: extends_emit_trans)
      obtain r w3 where b: "buildDrainPlan c ?w2 spots pods = (r, w3)"
        by (cases "buildDrainPlan c ?w2 spots pods")
      have fw: "fst (buildDrainPlan c w spots pods) = r"
        using b fst_eq by simp
      have ext3: "extends w w3"
        using buildDrainPlan_extends [of ?w2 c spots pods] ext2 extends_trans b by fastforce
      have da3: "drainAttempts w3 = drainAttempts w"
        using buildDrainPlan_drainAttempts [of c ?w2 spots pods] b by simp
      have nd3: "nextDrainTime w3 = nextDrainTime w"
        using buildDrainPlan_nextDrainTime [of c ?w2 spots pods] b by simp
      show ?thesis
      proof (cases r)
        case (Some x)
        have nd: "\<not> drainable c e w spots pdbs n"
          using Pair None Some fw by (simp add: drainable_def)
        show ?thesis
          by (rule skip [of "emit (Errorf ''Failed to build plan: %v'' [Err x]) w3"])
             (use nd Pair None False b Some da3 nd3 ext3 in \<open>simp_all add: Let_def extends_emit_trans\<close>)
      next
        case rNone: None
        have d: "drainable c e w spots pdbs n"
          using Pair None rNone fw False by (simp add: drainable_def)
        let ?w4 = "emit (Infof ''All pods on %v can be moved. Will drain node.''
                          [Str (Name (Node (infoH (heap w3) n)))]) w3"
        let ?node = "Node (infoH (heap w3) n)"
        obtain r5 w5 where dn: "drainNode cfg e ?w4 ?node pods = (r5, w5)"
          by (cases "drainNode cfg e ?w4 ?node pods")
        have da5: "drainAttempts w5 = drainAttempts w @ [DrainNode ?node pods]"
          using drainNode_simps(2) [of cfg e ?w4 ?node pods] dn da3 by simp
        have nd5: "nextDrainTime w5 = drainDone e + nodeDrainDelay cfg"
          using drainNode_simps(1) [of cfg e ?w4 ?node pods] dn by simp
        have ext5: "extends w w5"
          using drainNode_extends [of ?w4 cfg e ?node pods] dn ext3 extends_emit_trans extends_trans
          by fastforce
        have res: "processNodes c cfg e w spots pdbs (n # ns) =
                     (case r5 of Some err \<Rightarrow> emit (Errorf ''Failed to drain node: %v'' [Err err]) w5
                               | None \<Rightarrow> w5)"
          using Pair None False b rNone dn by (simp add: Let_def)
        show ?thesis
          by (rule drain [of ?node])
             (use d Pair da5 nd5 ext5 in
               \<open>simp_all add: res extends_emit_trans del: processNodes.simps split: option.splits\<close>)
      qed
    qed
  qed
qed

lemma processNodes_outcome:
  "extends w (processNodes c cfg e w spots pdbs ns) \<and>
   ((drainAttempts (processNodes c cfg e w spots pdbs ns) = drainAttempts w \<and>
     nextDrainTime (processNodes c cfg e w spots pdbs ns) = nextDrainTime w) \<or>
    (\<exists>node pods.
       drainAttempts (processNodes c cfg e w spots pdbs ns) = drainAttempts w @ [DrainNode node pods] \<and>
       nextDrainTime (processNodes c cfg e w spots pdbs ns) = drainDone e + nodeDrainDelay cfg))"
proof (induction ns arbitrary: w)
  case Nil
  show ?case by simp
next
  case (Cons n ns)
  show ?case
  proof (cases rule: processNodes_Cons_cases [of c e w spots pdbs n cfg ns])
    case (skip w')
    then show ?thesis
      using Cons.IH [of w'] extends_trans by metis
  next
    case (drain node)
    then show ?thesis by blast
  qed
qed

lemma processNodes_first_drainable:
  "drainable c e w spots pdbs n \<Longrightarrow>
   \<exists>node. drainAttempts (processNodes c cfg e w spots pdbs (n # ns)) =
     drainAttempts w @
       [DrainNode node (fst (GetPodsForDeletionOnNodeDrain e (podH (heap w)) (Pods (infoH (heap w) n)) pdbs))]"
  by (cases rule: processNodes_Cons_cases [of c e w spots pdbs n cfg ns]) auto

lemma processNodes_stops:
  "drainable c e w spots pdbs n \<Longrightarrow>
   processNodes c cfg e w spots pdbs (n # ns) = processNodes c cfg e w spots pdbs [n]"
proof -
  assume d: "drainable c e w spots pdbs n"
  obtain pods where g: "GetPodsForDeletionOnNodeDrain e (podH (heap w)) (Pods (infoH (heap w) n)) pdbs = (pods, None)"
      and ne: "pods \<noteq> []" and ok: "fst (buildDrainPlan c w spots pods) = None"
    using d by (auto simp: drainable_def split: prod.splits option.splits)
  let ?w2 = "emit (Infof ''Considering %s for removal'' [Str (Name (Node (infoH (heap w) n)))])
               (emit (UpdateNodePodsCount (OnDemandNodeLabel cfg) (Name (Node (infoH (heap w) n))) (length pods)) w)"
  have "fst (buildDrainPlan c ?w2 spots pods) = None"
    using ok buildDrainPlan_heap_only [of ?w2 w c spots pods] by simp
  then obtain w3 where "buildDrainPlan c ?w2 spots pods = (None, w3)"
    by (cases "buildDrainPlan c ?w2 spots pods") auto
  then show ?thesis
    using g ne by (simp add: Let_def)
qed

lemma outcome_refl: "outcome cfg e w w"
  by (simp add: outcome_def)

lemma outcome_emit: "\<not> isDrainNode ev \<Longrightarrow> outcome cfg e w r \<Longrightarrow> outcome cfg e w (emit ev r)"
  by (auto simp: outcome_def extends_emit_trans)

lemma outcome_pre:
  "extends w w' \<Longrightarrow> drainAttempts w' = drainAttempts w \<Longrightarrow> nextDrainTime w' = nextDrainTime w \<Longrightarrow>
   outcome cfg e w' r \<Longrightarrow> outcome cfg e w r"
  using extends_trans by (fastforce simp: outcome_def)

lemma outcome_processNodes: "outcome cfg e w (processNodes c cfg e w spots pdbs ns)"
  using processNodes_outcome [of w c cfg e spots pdbs ns] by (simp add: outcome_def)

lemma extends_updateSpot:
  "extends w w' \<Longrightarrow> extends w (updateSpotNodeMetrics cfg e w' spots pdbs)"
  using updateSpotNodeMetrics_extends extends_trans by blast

lemma cycle_unfold:
  "cycle c cfg e w =
     (if nextDrainTime w - now e > 0 then
        emit (Infof ''Waiting %s for drain delay timer.'' [Dur (nextDrainTime w - now e)]) w
      else
        (let w2 = (case snd (unschedulablePods e) of
                     Some err \<Rightarrow> emit (Errorf ''Failed to get unschedulable pods: %v'' [Err err])
                                   (emit UnschedulablePodLister_List w)
                   | None \<Rightarrow> emit UnschedulablePodLister_List w)
         in if fst (unschedulablePods e) \<noteq> [] then
              emit (Infof ''Waiting for unschedulable pods to be scheduled.'' []) w2
            else
              (let w3 = emit NodeLister_List (emit (Infof ''Starting node processing.'' []) w2)
               in case snd (allNodes e) of
                    Some err \<Rightarrow> emit (Errorf ''Failed to list nodes: %v'' [Err err]) w3
                  | None \<Rightarrow>
                      (let w4 = emit NewNodeMap w3;
                           nodeMap = fst (nodeMapOf e (fst (allNodes e)))
                       in case snd (nodeMapOf e (fst (allNodes e))) of
                            Some err \<Rightarrow> emit (Errorf ''Failed to build node map; %v'' [Err err]) w4
                          | None \<Rightarrow>
                              (let w5 = emit PodDisruptionBudgetLister_List
                                          (emit (UpdateNodesMap (OnDemand nodeMap) (Spot nodeMap)) w4)
                               in case snd (allPDBs e) of
                                    Some err \<Rightarrow> emit (Errorf ''Failed to list PDBs: %v'' [Err err]) w5
                                  | None \<Rightarrow>
                                      (let w6 = updateSpotNodeMetrics cfg e w5 (Spot nodeMap)
                                                  (fst (allPDBs e));
                                           w7 = (if OnDemand nodeMap = []
                                                 then emit (Infof ''No nodes to process.'' []) w6
                                                 else w6)
                                       in emit (Infof ''Finished processing nodes.'' [])
                                            (processNodes c cfg e w7 (Spot nodeMap) (fst (allPDBs e))
                                               (OnDemand nodeMap))))))))"
  by (simp add: cycle_def Let_def case_prod_beta cong: option.case_cong if_cong)

lemma outcome_cycle: "outcome cfg e w (cycle c cfg e w)"
proof -
  define w2 where "w2 = (case snd (unschedulablePods e) of
                     Some err \<Rightarrow> emit (Errorf ''Failed to get unschedulable pods: %v'' [Err err])
                                   (emit UnschedulablePodLister_List w)
                   | None \<Rightarrow> emit UnschedulablePodLister_List w)"
  define w3 where "w3 = emit NodeLister_List (emit (Infof ''Starting node processing.'' []) w2)"
  define w4 where "w4 = emit NewNodeMap w3"
  define nodeMap where "nodeMap = fst (nodeMapOf e (fst (allNodes e)))"
  define w5 where "w5 = emit PodDisruptionBudgetLister_List
                          (emit (UpdateNodesMap (OnDemand nodeMap) (Spot nodeMap)) w4)"
  define w6 where "w6 = updateSpotNodeMetrics cfg e w5 (Spot nodeMap) (fst (allPDBs e))"
  define w7 where "w7 = (if OnDemand nodeMap = []
                         then emit (Infof ''No nodes to process.'' []) w6 else w6)"
  have o2: "outcome cfg e w w2"
    by (simp add: w2_def outcome_emit outcome_refl split: option.splits)
  have o3: "outcome cfg e w w3"
    using o2 by (simp add: w3_def outcome_emit)
  have o4: "outcome cfg e w w4"
    using o3 by (simp add: w4_def outcome_emit)
  have o5: "outcome cfg e w w5"
    using o4 by (simp add: w5_def outcome_emit)
  have e5: "extends w w5" "drainAttempts w5 = drainAttempts w" "nextDrainTime w5 = nextDrainTime w"
    by (simp_all add: w5_def w4_def w3_def w2_def extends_emit_trans split: option.splits)
  have e6: "extends w w6" "drainAttempts w6 = drainAttempts w" "nextDrainTime w6 = nextDrainTime w"
    using extends_updateSpot [OF e5(1)] e5 by (simp_all add: w6_def)
  have e7: "extends w w7" "drainAttempts w7 = drainAttempts w" "nextDrainTime w7 = nextDrainTime w"
    using e6 by (simp_all add: w7_def extends_emit_trans)
  have o8: "outcome cfg e w
             (emit (Infof ''Finished processing nodes.'' [])
                (processNodes c cfg e w7 (Spot nodeMap) (fst (allPDBs e)) (OnDemand nodeMap)))"
  proof -
    have "outcome cfg e w (processNodes c cfg e w7 (Spot nodeMap) (fst (allPDBs e)) (OnDemand nodeMap))"
      by (rule outcome_pre [OF e7 outcome_processNodes])
    then show ?thesis
      by (simp add: outcome_emit)
  qed
  have c: "cycle c cfg e w =
     (if nextDrainTime w - now e > 0 then
        emit (Infof ''Waiting %s for drain delay timer.'' [Dur (nextDrainTime w - now e)]) w
      else if fst (unschedulablePods e) \<noteq> [] then
        emit (Infof ''Waiting for unschedulable pods to be scheduled.'' []) w2
      else case snd (allNodes e) of
             Some err \<Rightarrow> emit (Errorf ''Failed to list nodes: %v'' [Err err]) w3
           | None \<Rightarrow>
               (case snd (nodeMapOf e (fst (allNodes e))) of
                  Some err \<Rightarrow> emit (Errorf ''Failed to build node map; %v'' [Err err]) w4
                | None \<Rightarrow>
                    (case snd (allPDBs e) of
                       Some err \<Rightarrow> emit (Errorf ''Failed to list PDBs: %v'' [Err err]) w5
                     | None \<Rightarrow>
                         emit (Infof ''Finished processing nodes.'' [])
                           (processNodes c cfg e w7 (Spot nodeMap) (fst (allPDBs e))
                              (OnDemand nodeMap)))))"
    unfolding cycle_unfold Let_def w7_def w6_def w5_def nodeMap_def w4_def w3_def w2_def
    by (rule refl)
  show ?thesis
    unfolding c using o2 o3 o4 o5 o8
    by (simp add: outcome_emit outcome_refl split: option.splits)
qed

lemma trace_cycle: "trace (cycle c cfg e w) = trace w @ cycleEvents c cfg e w"
  using outcome_cycle [of cfg e w c] by (auto simp: outcome_def extends_def cycleEvents_def)

lemma drainAttempts_cycle:
  "drainAttempts (cycle c cfg e w) = drainAttempts w @ filter isDrainNode (cycleEvents c cfg e w)"
  by (simp add: drainAttempts_def trace_cycle)

lemma cycle_cooldown:
  "now e < nextDrainTime w \<Longrightarrow>
   cycle c cfg e w = emit (Infof ''Waiting %s for drain delay timer.'' [Dur (nextDrainTime w - now e)]) w"
  by (simp add: cycle_def)

lemma run_cooldown:
  "\<forall>e\<in>set es. now e < nextDrainTime w \<Longrightarrow>
   drainAttempts (run c cfg es w) = drainAttempts w \<and> nextDrainTime (run c cfg es w) = nextDrainTime w \<and>
   heap (run c cfg es w) = heap w"
  by (induction es arbitrary: w) (simp_all add: cycle_cooldown)

lemma cycle_after_node_map:
  assumes "\<not> now e < nextDrainTime w" and "fst (unschedulablePods e) = []"
    and "snd (allNodes e) = None" and "snd (nodeMapOf e (fst (allNodes e))) = None"
  obtains w5 pre where
    "trace w5 = trace w @ pre @
       [UpdateNodesMap (OnDemand (fst (nodeMapOf e (fst (allNodes e)))))
          (Spot (fst (nodeMapOf e (fst (allNodes e))))), PodDisruptionBudgetLister_List]"
    "heap w5 = heap w" "nextDrainTime w5 = nextDrainTime w"
    "cycle c cfg e w =
       (case snd (allPDBs e) of
          Some err \<Rightarrow> emit (Errorf ''Failed to list PDBs: %v'' [Err err]) w5
        | None \<Rightarrow>
            emit (Infof ''Finished processing nodes.'' [])
              (processNodes c cfg e
                 (if OnDemand (fst (nodeMapOf e (fst (allNodes e)))) = []
                  then emit (Infof ''No nodes to process.'' [])
                         (updateSpotNodeMetrics cfg e w5 (Spot (fst (nodeMapOf e (fst (allNodes e)))))
                            (fst (allPDBs e)))
                  else updateSpotNodeMetrics cfg e w5 (Spot (fst (nodeMapOf e (fst (allNodes e)))))
                         (fst (allPDBs e)))
                 (Spot (fst (nodeMapOf e (fst (allNodes e))))) (fst (allPDBs e))
                 (OnDemand (fst (nodeMapOf e (fst (allNodes e)))))))"
proof -
  define w2 where "w2 = (case snd (unschedulablePods e) of
                     Some err \<Rightarrow> emit (Errorf ''Failed to get unschedulable pods: %v'' [Err err])
                                   (emit UnschedulablePodLister_List w)
                   | None \<Rightarrow> emit UnschedulablePodLister_List w)"
  define nodeMap where "nodeMap = fst (nodeMapOf e (fst (allNodes e)))"
  define w5 where "w5 = emit PodDisruptionBudgetLister_List
                          (emit (UpdateNodesMap (OnDemand nodeMap) (Spot nodeMap))
                             (emit NewNodeMap
                                (emit NodeLister_List (emit (Infof ''Starting node processing.'' []) w2))))"
  obtain pre2 where t2: "trace w2 = trace w @ pre2" and h2: "heap w2 = heap w"
      and n2: "nextDrainTime w2 = nextDrainTime w"
    by (cases "snd (unschedulablePods e)") (simp_all add: w2_def)
  have t5: "trace w5 = trace w @ (pre2 @ [Infof ''Starting node processing.'' [], NodeLister_List, NewNodeMap]) @
       [UpdateNodesMap (OnDemand nodeMap) (Spot nodeMap), PodDisruptionBudgetLister_List]"
    by (simp add: w5_def t2)
  have h5: "heap w5 = heap w" "nextDrainTime w5 = nextDrainTime w"
    by (simp_all add: w5_def h2 n2)
  have c: "cycle c cfg e w =
       (case snd (allPDBs e) of
          Some err \<Rightarrow> emit (Errorf ''Failed to list PDBs: %v'' [Err err]) w5
        | None \<Rightarrow>
            emit (Infof ''Finished processing nodes.'' [])
              (processNodes c cfg e
                 (if OnDemand nodeMap = []
                  then emit (Infof ''No nodes to process.'' [])
                         (updateSpotNodeMetrics cfg e w5 (Spot nodeMap) (fst (allPDBs e)))
                  else updateSpotNodeMetrics cfg e w5 (Spot nodeMap) (fst (allPDBs e)))
                 (Spot nodeMap) (fst (allPDBs e)) (OnDemand nodeMap)))"
    using assms unfolding cycle_unfold Let_def w5_def nodeMap_def w2_def
    by (simp cong: option.case_cong if_cong)
  show thesis
    using that [OF t5 [unfolded nodeMap_def] h5 c [unfolded nodeMap_def]] .
qed

lemma cycle_events_append: "trace (cycle c cfg e w) = trace w @ evs \<Longrightarrow> cycleEvents c cfg e w = evs"
  by (simp add: cycleEvents_def)

lemmas ex_loop_defs = exEnv_def exEnvListError_def exConfig_def exWorld2_def exHeap2_def cycle_def
  cycleEvents_def drainNode_def drainAttempts_def drainable_def

lemma other_listing_errors_abort:
  assumes "\<not> now e < nextDrainTime w" and "fst (unschedulablePods e) = []"
    and "snd (allNodes e) \<noteq> None \<or> snd (nodeMapOf e (fst (allNodes e))) \<noteq> None \<or> snd (allPDBs e) \<noteq> None"
  shows "heap (cycle c cfg e w) = heap w \<and> nextDrainTime (cycle c cfg e w) = nextDrainTime w \<and>
         filter isDrainNode (cycleEvents c cfg e w) = [] \<and>
         (\<exists>fmt err. last (trace (cycle c cfg e w)) = Errorf fmt [Err err])"
  using assms unfolding cycleEvents_def cycle_unfold Let_def
  by (auto split: option.splits)

lemma ex_cycle_drains:
  "filter isDrainNode (cycleEvents exCollab exConfig exEnv exWorld2) =
     [DrainNode \<lparr>Name = ''ondemand-1'', NodeRest = 2\<rparr> [0]]"
  by (simp add: ex_defs ex_loop_defs)

lemma ex_drainable:
  "drainable exCollab exEnv exWorld2 [1, 2] [] 0" "drainable exCollab exEnv exWorld2 [1, 2] [] 3"
  by (simp_all add: ex_defs ex_loop_defs)









section \<open>The claims about planning\<close>

text \<open>
  Claim C1.  \<^verbatim>\<open>buildDrainPlan\<close> works on a copy of the spot array.  With \<open>CopyNodeInfos\<close> and
  \<open>AddPod\<close> as the spec describes them, and a spot array made of live NodeInfo objects, the
  pod lists of the array are the same after the call as before it, whether the call
  succeeds, fails on a pod or fails in the copy.  More: every NodeInfo that was live before
  the call is unchanged, every pod outside the candidate list is unchanged, and the cooldown
  deadline is unchanged; the placements are on NodeInfo objects created by the call.
\<close>

theorem buildDrainPlan_leaves_real_array:
  assumes "\<forall>a\<in>set nodeInfos. a < nextInfo (heap w)"
  shows "map (\<lambda>a. Pods (infoH (heap (snd (buildDrainPlan (nodesPackage f c) w nodeInfos pods))) a)) nodeInfos =
           map (\<lambda>a. Pods (infoH (heap w) a)) nodeInfos \<and>
         (\<forall>a<nextInfo (heap w).
            infoH (heap (snd (buildDrainPlan (nodesPackage f c) w nodeInfos pods))) a = infoH (heap w) a) \<and>
         (\<forall>q. q \<notin> set pods \<longrightarrow>
            podH (heap (snd (buildDrainPlan (nodesPackage f c) w nodeInfos pods))) q = podH (heap w) q) \<and>
         nextDrainTime (snd (buildDrainPlan (nodesPackage f c) w nodeInfos pods)) = nextDrainTime w"
proof -
  let ?r = "snd (buildDrainPlan (nodesPackage f c) w nodeInfos pods)"
  have old: "infoH (heap ?r) a = infoH (heap w) a" if "a < nextInfo (heap w)" for a
  proof (cases f)
    case (Some err)
    then show ?thesis by (simp add: buildDrainPlan_spec)
  next
    case None
    have "\<forall>n\<in>set (fst (copyInfos (heap w) nodeInfos)). a \<noteq> n"
      using that copyInfos_fresh by fastforce
    then show ?thesis
      using None that
      by (simp add: buildDrainPlan_spec planPods_info_frame copyInfos_old)
  qed
  have pods: "podH (heap ?r) q = podH (heap w) q" if "q \<notin> set pods" for q
    using that by (cases f) (simp_all add: buildDrainPlan_spec planPods_pod_frame)
  show ?thesis
    using assms old pods by simp
qed

theorem buildDrainPlan_leaves_real_array_witness:
  "1 < nextInfo (heap exWorld) \<and> 2 < nextInfo (heap exWorld) \<and>
   fst (buildDrainPlan (nodesPackage None exCollab) exWorld [1, 2] [0, 1]) = None \<and>
   map (\<lambda>a. Pods (infoH (heap (snd (buildDrainPlan (nodesPackage None exCollab) exWorld [1, 2] [0, 1]))) a))
     [1, 2] = [[], []] \<and>
   map (\<lambda>a. Pods (infoH (heap exWorld) a)) [1, 2] = [[], []] \<and>
   map (\<lambda>a. Pods (infoH (heap (snd (buildDrainPlan (nodesPackage None exCollab) exWorld [1, 2] [0, 1]))) a))
     [3, 4] = [[0], [1]]"
proof -
  have live: "\<forall>a\<in>set [1, 2]. a < nextInfo (heap exWorld)"
    by (simp add: exWorld_def exHeap_def)
  have ok: "fst (buildDrainPlan (nodesPackage None exCollab) exWorld [1, 2] [0, 1]) = None \<and>
      map (\<lambda>a. Pods (infoH (heap (snd (buildDrainPlan (nodesPackage None exCollab) exWorld [1, 2] [0, 1]))) a))
        [3, 4] = [[0], [1]]"
    by (simp add: ex_defs)
  have before: "map (\<lambda>a. Pods (infoH (heap exWorld) a)) [1, 2] = [[], []]"
    by (simp add: exWorld_def exHeap_def)
  show ?thesis
    using live ok before
      buildDrainPlan_leaves_real_array [OF live, of None exCollab "[0, 1]"]
    by simp
qed

text \<open>
  Claim C2.  Pods are planned in input order, on the copy of the spot array: the store
  before the first pod is the store the copy leaves, in which the copied array holds, at each
  position, the node and the pod list of the NodeInfo at that position of the real array
  (the NodeInfo objects of the real array being allocated in the store of the caller).  Take
  the pod at position \<open>i\<close>, all pods before it placed.  Each pod before it went to the first
  NodeInfo of the copied array, in the order of the array, that was feasible in the store left
  by the pods before that pod; and in the store the pod at position \<open>i\<close> is checked in, the
  pod list of every NodeInfo is its pod list in the copy followed by the earlier pods that
  were placed on it, in input order.  The destination of the pod at position \<open>i\<close> is the
  first NodeInfo of the copied array that is feasible in that store; the pod is appended to
  the pod list of that NodeInfo, and the pods after it are planned in the store with that
  pod list.  If no NodeInfo is feasible the plan fails.
\<close>

theorem plan_first_fit_accumulates:
  assumes "i < length pods"
    and "fst (buildDrainPlan (nodesPackage None c) w nodeInfos (take i pods)) = None"
  shows "let plan = fst (copyInfos (heap w) nodeInfos);
             copied = snd (copyInfos (heap w) nodeInfos);
             store = (\<lambda>m. heap (snd (buildDrainPlan (nodesPackage None c) w nodeInfos (take m pods))));
             dests = destinations (nodesPackage None c) copied plan (take i pods);
             before = heap (snd (buildDrainPlan (nodesPackage None c) w nodeInfos (take i pods)));
             after = buildDrainPlan (nodesPackage None c) w nodeInfos (take (Suc i) pods);
             pod = pods ! i
         in store 0 = copied \<and>
            podH copied = podH (heap w) \<and>
            length plan = length nodeInfos \<and>
            ((\<forall>a\<in>set nodeInfos. a < nextInfo (heap w)) \<longrightarrow>
               (\<forall>j<length nodeInfos. infoH copied (plan ! j) = infoH (heap w) (nodeInfos ! j))) \<and>
            length dests = i \<and>
            (\<forall>m<i. find (\<lambda>n. feasible c (store m) n (pods ! m)) plan = Some (dests ! m)) \<and>
            (\<forall>n. Node (infoH before n) = Node (infoH copied n) \<and>
                 Pods (infoH before n) =
                   Pods (infoH copied n) @
                     map fst (filter (\<lambda>pd. snd pd = n) (zip (take i pods) dests))) \<and>
            (case find (\<lambda>n. feasible c before n pod) plan of
               None \<Rightarrow> fst after \<noteq> None
             | Some spot \<Rightarrow>
                 (\<exists>j<length plan. plan ! j = spot \<and> feasible c before spot pod \<and>
                     (\<forall>j'<j. \<not> feasible c before (plan ! j') pod)) \<and>
                 fst after = None \<and>
                 heap (snd after) = AddPod_spec (clearNodeName before pod) spot pod \<and>
                 Pods (infoH (heap (snd after)) spot) = Pods (infoH before spot) @ [pod] \<and>
                 buildDrainPlan (nodesPackage None c) w nodeInfos pods =
                   planPods (nodesPackage None c) (snd after) plan (drop (Suc i) pods))"
proof -
  let ?c = "nodesPackage None c"
  let ?plan = "fst (copyInfos (heap w) nodeInfos)"
  let ?copied = "snd (copyInfos (heap w) nodeInfos)"
  let ?w0 = "w\<lparr>heap := ?copied\<rparr>"
  let ?dests = "destinations ?c ?copied ?plan (take i pods)"
  let ?before = "heap (snd (buildDrainPlan ?c w nodeInfos (take i pods)))"
  have b: "buildDrainPlan ?c w nodeInfos ps = planPods ?c ?w0 ?plan ps" for ps
    by (simp add: buildDrainPlan_spec)
  have hw0: "heap ?w0 = ?copied" by simp
  have f1: "heap (snd (buildDrainPlan ?c w nodeInfos (take 0 pods))) = ?copied"
    by (simp add: b)
  have f2: "podH ?copied = podH (heap w)"
    by simp
  have f3: "length ?plan = length nodeInfos"
    by simp
  have f4: "(\<forall>a\<in>set nodeInfos. a < nextInfo (heap w)) \<longrightarrow>
               (\<forall>j<length nodeInfos. infoH ?copied (?plan ! j) = infoH (heap w) (nodeInfos ! j))"
    using copyInfos_content [of nodeInfos "heap w"] by blast
  have f5: "length ?dests = i"
    using assms planPods_ok_iff [of ?c ?w0 ?plan "take i pods"] unfolding b hw0 by simp
  have f6: "\<forall>m<i. find (\<lambda>n. feasible c
                (heap (snd (buildDrainPlan ?c w nodeInfos (take m pods)))) n (pods ! m)) ?plan =
              Some (?dests ! m)"
  proof (intro allI impI)
    fix m assume m: "m < i"
    then have "m < length (destinations ?c (heap ?w0) ?plan (take i pods))"
      using f5 by simp
    from planPods_step [OF this]
    have "find (\<lambda>n. feasible ?c (heap (snd (planPods ?c ?w0 ?plan (take m (take i pods))))) n
                  (take i pods ! m)) ?plan = Some (destinations ?c (heap ?w0) ?plan (take i pods) ! m)"
      by simp
    moreover have "take m (take i pods) = take m pods" "take i pods ! m = pods ! m"
      using m by (simp_all add: min_def)
    ultimately show "find (\<lambda>n. feasible c
                (heap (snd (buildDrainPlan ?c w nodeInfos (take m pods)))) n (pods ! m)) ?plan =
              Some (?dests ! m)"
      unfolding b by simp
  qed
  have f7: "\<forall>n. Node (infoH ?before n) = Node (infoH ?copied n) \<and>
                 Pods (infoH ?before n) =
                   Pods (infoH ?copied n) @
                     map fst (filter (\<lambda>pd. snd pd = n) (zip (take i pods) ?dests))"
    using planPods_occupancy [of ?c ?w0 ?plan "take i pods"] unfolding b by simp
  note f8 = plan_step [OF assms, unfolded Let_def]
  show ?thesis
    using f1 f2 f3 f4 f5 f6 f7 f8 unfolding Let_def
    by (intro conjI) assumption+
qed

theorem plan_first_fit_accumulates_witness:
  "(1::nat) < length [0, 1 :: addr] \<and>
   fst (buildDrainPlan (nodesPackage None exCollab) exWorld3 [1, 2] (take 1 [0, 1])) = None \<and>
   1 < nextInfo (heap exWorld3) \<and> 2 < nextInfo (heap exWorld3) \<and>
   fst (copyInfos (heap exWorld3) [1, 2]) = [3, 4] \<and>
   Pods (infoH (heap exWorld3) 1) = [2] \<and>
   Pods (infoH (snd (copyInfos (heap exWorld3) [1, 2])) 3) = [2] \<and>
   destinations (nodesPackage None exCollab) (snd (copyInfos (heap exWorld3) [1, 2])) [3, 4] (take 1 [0, 1]) = [3] \<and>
   Pods (infoH (heap (snd (buildDrainPlan (nodesPackage None exCollab) exWorld3 [1, 2] (take 1 [0, 1])))) 3) = [2, 0] \<and>
   find (\<lambda>n. feasible exCollab
                (heap (snd (buildDrainPlan (nodesPackage None exCollab) exWorld3 [1, 2] (take 1 [0, 1])))) n 1)
     [3, 4] = Some 4 \<and>
   fst (buildDrainPlan (nodesPackage None exCollab) exWorld3 [1, 2] [0, 1]) = None \<and>
   Pods (infoH (heap (snd (buildDrainPlan (nodesPackage None exCollab) exWorld3 [1, 2] [0, 1]))) 4) = [1]"
proof -
  have i: "(1::nat) < length [0, 1 :: addr]"
    by simp
  have pre: "fst (buildDrainPlan (nodesPackage None exCollab) exWorld3 [1, 2] (take 1 [0, 1])) = None"
    by (simp add: ex_defs ex3_defs)
  have live: "1 < nextInfo (heap exWorld3) \<and> 2 < nextInfo (heap exWorld3)"
    by (simp add: ex_defs ex3_defs)
  have plan: "fst (copyInfos (heap exWorld3) [1, 2]) = [3, 4]"
    by (simp add: ex_defs ex3_defs)
  have real: "Pods (infoH (heap exWorld3) 1) = [2] \<and> Pods (infoH (heap exWorld3) 2) = []"
    by (simp add: ex_defs ex3_defs)
  have ds: "destinations (nodesPackage None exCollab) (snd (copyInfos (heap exWorld3) [1, 2])) [3, 4]
              (take 1 [0, 1]) = [3]"
    by (simp add: ex_defs ex3_defs)
  have ff: "find (\<lambda>n. feasible exCollab
                (heap (snd (buildDrainPlan (nodesPackage None exCollab) exWorld3 [1, 2] (take 1 [0, 1])))) n 1)
     [3, 4] = Some 4"
    by (simp add: ex_defs ex3_defs)
  have cp: "Pods (infoH (snd (copyInfos (heap exWorld3) [1, 2])) 3) = [2]"
    by (simp add: ex_defs ex3_defs)
  have occ: "Pods (infoH (heap (snd (buildDrainPlan (nodesPackage None exCollab) exWorld3 [1, 2] (take 1 [0, 1])))) 3)
               = [2, 0] \<and>
             Pods (infoH (heap (snd (buildDrainPlan (nodesPackage None exCollab) exWorld3 [1, 2] (take 1 [0, 1])))) 4)
               = []"
    by (simp add: ex_defs ex3_defs)
  show ?thesis
    using i pre live plan real cp ds occ ff plan_first_fit_accumulates [OF i pre]
    by (simp add: Let_def)
qed

text \<open>
  Claim C3.  \<^verbatim>\<open>buildDrainPlan\<close> first copies the spot array; if that fails it returns the
  error of the copy and looks at no pod.  On the copy, the store before the first pod is the
  store the copy leaves; each pod that gets a destination gets the first NodeInfo of the
  copy that is feasible for it in the store left by the pods before it, and is added to that
  NodeInfo in the store the next pod is checked in.  The result is nil exactly when every pod
  of the list got a destination, which is exactly when every pod has a feasible NodeInfo in
  the store left by the pods before it.  If the pods before some pod were placed and no
  NodeInfo of the copy is feasible for that pod in the store they left, then the result is an
  error that names that pod, and it is the result on the list cut after that pod: no pod
  after it is looked at.  When the result is not nil there is such a pod, at the
  position \<open>k\<close> where the destinations end.
\<close>

theorem buildDrainPlan_stops_at_first_unplaceable:
  assumes "CopyNodeInfos c (heap w) nodeInfos = ((nodePlan, cerr), h)"
  shows "(cerr \<noteq> None \<longrightarrow> buildDrainPlan c w nodeInfos pods = (cerr, w\<lparr>heap := h\<rparr>)) \<and>
         (cerr = None \<longrightarrow>
            (let dests = destinations c h nodePlan pods;
                 k = length dests;
                 store = (\<lambda>m. heap (snd (planPods c (w\<lparr>heap := h\<rparr>) nodePlan (take m pods))));
                 result = buildDrainPlan c w nodeInfos pods
             in k \<le> length pods \<and>
                store 0 = h \<and>
                (\<forall>m<k. find (\<lambda>n. feasible c (store m) n (pods ! m)) nodePlan = Some (dests ! m) \<and>
                        store (Suc m) =
                          AddPod c (clearNodeName (store m) (pods ! m)) (dests ! m) (pods ! m)) \<and>
                (fst result = None \<longleftrightarrow> k = length pods) \<and>
                (fst result = None \<longleftrightarrow>
                   (\<forall>m<length pods. \<exists>n\<in>set nodePlan. feasible c (store m) n (pods ! m))) \<and>
                (\<forall>m<length pods.
                   fst (planPods c (w\<lparr>heap := h\<rparr>) nodePlan (take m pods)) = None \<and>
                   (\<forall>n\<in>set nodePlan. \<not> feasible c (store m) n (pods ! m)) \<longrightarrow>
                     m = k \<and>
                     fst result =
                       Some (fmt_Errorf ''Pod %s can't be rescheduled on any existing spot node.''
                               [podId c (podH (heap (snd result)) (pods ! m))]) \<and>
                     result = buildDrainPlan c w nodeInfos (take (Suc m) pods)) \<and>
                (k < length pods \<longrightarrow>
                   fst (planPods c (w\<lparr>heap := h\<rparr>) nodePlan (take k pods)) = None \<and>
                   (\<forall>n\<in>set nodePlan. \<not> feasible c (store k) n (pods ! k)) \<and>
                   fst result =
                     Some (fmt_Errorf ''Pod %s can't be rescheduled on any existing spot node.''
                             [podId c (podH (heap (snd result)) (pods ! k))]) \<and>
                   result = buildDrainPlan c w nodeInfos (take (Suc k) pods))))"
proof (cases cerr)
  case (Some err)
  then show ?thesis
    using assms by (simp add: buildDrainPlan_def)
next
  case None
  let ?w = "w\<lparr>heap := h\<rparr>"
  define dests where "dests = destinations c h nodePlan pods"
  define k where "k = length dests"
  define store where "store = (\<lambda>m. heap (snd (planPods c ?w nodePlan (take m pods))))"
  define result where "result = buildDrainPlan c w nodeInfos pods"
  have b: "buildDrainPlan c w nodeInfos ps = planPods c ?w nodePlan ps" for ps
    using assms None by (simp add: buildDrainPlan_def)
  have hw: "heap ?w = h" by simp
  have dh: "destinations c (heap ?w) nodePlan pods = dests"
    by (simp add: dests_def)
  have k_le: "k \<le> length pods"
    using destinations_length [of c h nodePlan pods] by (simp add: k_def dests_def)
  have s0: "store 0 = h"
    by (simp add: store_def)
  have step: "find (\<lambda>n. feasible c (store m) n (pods ! m)) nodePlan = Some (dests ! m) \<and>
              store (Suc m) = AddPod c (clearNodeName (store m) (pods ! m)) (dests ! m) (pods ! m)"
    if "m < k" for m
    using planPods_step [of m c ?w nodePlan pods] that
    unfolding dh store_def k_def by simp
  have ok: "fst result = None \<longleftrightarrow> k = length pods"
    using planPods_ok_iff [of c ?w nodePlan pods]
    unfolding dh result_def b k_def by simp
  have fail: "fst (planPods c ?w nodePlan (take k pods)) = None \<and>
              (\<forall>n\<in>set nodePlan. \<not> feasible c (store k) n (pods ! k)) \<and>
              fst result =
                Some (fmt_Errorf ''Pod %s can't be rescheduled on any existing spot node.''
                        [podId c (podH (heap (snd result)) (pods ! k))]) \<and>
              result = buildDrainPlan c w nodeInfos (take (Suc k) pods)"
    if "k < length pods"
    using that
      planPods_stop1 [of c ?w nodePlan pods]
      planPods_stop2 [of c ?w nodePlan pods]
      planPods_stop3 [of c ?w nodePlan pods]
      planPods_stop4 [of c ?w nodePlan pods]
    unfolding dh result_def b k_def store_def findSpot_None_iff
    by simp
  have first: "m = k"
    if m: "m < length pods"
      and pre: "fst (planPods c ?w nodePlan (take m pods)) = None"
      and none: "\<forall>n\<in>set nodePlan. \<not> feasible c (store m) n (pods ! m)"
    for m
  proof -
    have "m \<le> k"
      using planPods_prefix_ok [of m pods c ?w nodePlan] m pre
      unfolding dh k_def by simp
    moreover have "\<not> m < k"
    proof
      assume "m < k"
      from step [OF this] have "find (\<lambda>n. feasible c (store m) n (pods ! m)) nodePlan = Some (dests ! m)"
        by simp
      then have "dests ! m \<in> set nodePlan" "feasible c (store m) (dests ! m) (pods ! m)"
        by (auto simp: find_Some_iff)
      then show False
        using none by blast
    qed
    ultimately show ?thesis by simp
  qed
  have all: "fst result = None \<longleftrightarrow>
               (\<forall>m<length pods. \<exists>n\<in>set nodePlan. feasible c (store m) n (pods ! m))"
  proof
    assume "fst result = None"
    then have kk: "k = length pods" using ok by simp
    show "\<forall>m<length pods. \<exists>n\<in>set nodePlan. feasible c (store m) n (pods ! m)"
    proof (intro allI impI)
      fix m assume "m < length pods"
      then have "m < k" using kk by simp
      from step [OF this] have "find (\<lambda>n. feasible c (store m) n (pods ! m)) nodePlan = Some (dests ! m)"
        by simp
      then have "dests ! m \<in> set nodePlan \<and> feasible c (store m) (dests ! m) (pods ! m)"
        by (auto simp: find_Some_iff)
      then show "\<exists>n\<in>set nodePlan. feasible c (store m) n (pods ! m)"
        by blast
    qed
  next
    assume a: "\<forall>m<length pods. \<exists>n\<in>set nodePlan. feasible c (store m) n (pods ! m)"
    have "\<not> k < length pods"
    proof
      assume "k < length pods"
      with fail a show False by blast
    qed
    then show "fst result = None"
      using ok k_le by simp
  qed
  have f3: "\<forall>m<k. find (\<lambda>n. feasible c (store m) n (pods ! m)) nodePlan = Some (dests ! m) \<and>
                store (Suc m) =
                  AddPod c (clearNodeName (store m) (pods ! m)) (dests ! m) (pods ! m)"
    using step by blast
  have f6: "\<forall>m<length pods.
           fst (planPods c ?w nodePlan (take m pods)) = None \<and>
           (\<forall>n\<in>set nodePlan. \<not> feasible c (store m) n (pods ! m)) \<longrightarrow>
             m = k \<and>
             fst result =
               Some (fmt_Errorf ''Pod %s can't be rescheduled on any existing spot node.''
                       [podId c (podH (heap (snd result)) (pods ! m))]) \<and>
             result = buildDrainPlan c w nodeInfos (take (Suc m) pods)"
  proof (intro allI impI)
    fix m
    assume m: "m < length pods"
      and a: "fst (planPods c ?w nodePlan (take m pods)) = None \<and>
              (\<forall>n\<in>set nodePlan. \<not> feasible c (store m) n (pods ! m))"
    have mk: "m = k"
      by (rule first [OF m conjunct1 [OF a] conjunct2 [OF a]])
    then have "k < length pods" using m by simp
    from fail [OF this] show "m = k \<and>
             fst result =
               Some (fmt_Errorf ''Pod %s can't be rescheduled on any existing spot node.''
                       [podId c (podH (heap (snd result)) (pods ! m))]) \<and>
             result = buildDrainPlan c w nodeInfos (take (Suc m) pods)"
      unfolding mk by (elim conjE, intro conjI refl) assumption+
  qed
  have f7: "k < length pods \<longrightarrow>
           fst (planPods c ?w nodePlan (take k pods)) = None \<and>
           (\<forall>n\<in>set nodePlan. \<not> feasible c (store k) n (pods ! k)) \<and>
           fst result =
             Some (fmt_Errorf ''Pod %s can't be rescheduled on any existing spot node.''
                     [podId c (podH (heap (snd result)) (pods ! k))]) \<and>
           result = buildDrainPlan c w nodeInfos (take (Suc k) pods)"
    using fail by blast
  have goal: "k \<le> length pods \<and>
        store 0 = h \<and>
        (\<forall>m<k. find (\<lambda>n. feasible c (store m) n (pods ! m)) nodePlan = Some (dests ! m) \<and>
                store (Suc m) =
                  AddPod c (clearNodeName (store m) (pods ! m)) (dests ! m) (pods ! m)) \<and>
        (fst result = None \<longleftrightarrow> k = length pods) \<and>
        (fst result = None \<longleftrightarrow>
           (\<forall>m<length pods. \<exists>n\<in>set nodePlan. feasible c (store m) n (pods ! m))) \<and>
        (\<forall>m<length pods.
           fst (planPods c ?w nodePlan (take m pods)) = None \<and>
           (\<forall>n\<in>set nodePlan. \<not> feasible c (store m) n (pods ! m)) \<longrightarrow>
             m = k \<and>
             fst result =
               Some (fmt_Errorf ''Pod %s can't be rescheduled on any existing spot node.''
                       [podId c (podH (heap (snd result)) (pods ! m))]) \<and>
             result = buildDrainPlan c w nodeInfos (take (Suc m) pods)) \<and>
        (k < length pods \<longrightarrow>
           fst (planPods c ?w nodePlan (take k pods)) = None \<and>
           (\<forall>n\<in>set nodePlan. \<not> feasible c (store k) n (pods ! k)) \<and>
           fst result =
             Some (fmt_Errorf ''Pod %s can't be rescheduled on any existing spot node.''
                     [podId c (podH (heap (snd result)) (pods ! k))]) \<and>
           result = buildDrainPlan c w nodeInfos (take (Suc k) pods))"
    using k_le s0 f3 ok all f6 f7 by (intro conjI) assumption+
  show ?thesis
    unfolding Let_def
  proof (rule conjI)
    show "cerr \<noteq> None \<longrightarrow> buildDrainPlan c w nodeInfos pods = (cerr, w\<lparr>heap := h\<rparr>)"
      using None by simp
  next
    from goal [unfolded k_def store_def result_def dests_def]
    show "cerr = None \<longrightarrow>
       length (destinations c h nodePlan pods) \<le> length pods \<and>
       heap (snd (planPods c (w\<lparr>heap := h\<rparr>) nodePlan (take 0 pods))) = h \<and>
       (\<forall>m<length (destinations c h nodePlan pods).
           find (\<lambda>n. feasible c (heap (snd (planPods c (w\<lparr>heap := h\<rparr>) nodePlan (take m pods)))) n (pods ! m))
             nodePlan = Some (destinations c h nodePlan pods ! m) \<and>
           heap (snd (planPods c (w\<lparr>heap := h\<rparr>) nodePlan (take (Suc m) pods))) =
             AddPod c (clearNodeName (heap (snd (planPods c (w\<lparr>heap := h\<rparr>) nodePlan (take m pods)))) (pods ! m))
               (destinations c h nodePlan pods ! m) (pods ! m)) \<and>
       (fst (buildDrainPlan c w nodeInfos pods) = None \<longleftrightarrow>
          length (destinations c h nodePlan pods) = length pods) \<and>
       (fst (buildDrainPlan c w nodeInfos pods) = None \<longleftrightarrow>
          (\<forall>m<length pods. \<exists>n\<in>set nodePlan.
              feasible c (heap (snd (planPods c (w\<lparr>heap := h\<rparr>) nodePlan (take m pods)))) n (pods ! m))) \<and>
       (\<forall>m<length pods.
           fst (planPods c (w\<lparr>heap := h\<rparr>) nodePlan (take m pods)) = None \<and>
           (\<forall>n\<in>set nodePlan.
               \<not> feasible c (heap (snd (planPods c (w\<lparr>heap := h\<rparr>) nodePlan (take m pods)))) n (pods ! m)) \<longrightarrow>
             m = length (destinations c h nodePlan pods) \<and>
             fst (buildDrainPlan c w nodeInfos pods) =
               Some (fmt_Errorf ''Pod %s can't be rescheduled on any existing spot node.''
                       [podId c (podH (heap (snd (buildDrainPlan c w nodeInfos pods))) (pods ! m))]) \<and>
             buildDrainPlan c w nodeInfos pods = buildDrainPlan c w nodeInfos (take (Suc m) pods)) \<and>
       (length (destinations c h nodePlan pods) < length pods \<longrightarrow>
           fst (planPods c (w\<lparr>heap := h\<rparr>) nodePlan
                  (take (length (destinations c h nodePlan pods)) pods)) = None \<and>
           (\<forall>n\<in>set nodePlan.
               \<not> feasible c (heap (snd (planPods c (w\<lparr>heap := h\<rparr>) nodePlan
                                           (take (length (destinations c h nodePlan pods)) pods))))
                    n (pods ! length (destinations c h nodePlan pods))) \<and>
           fst (buildDrainPlan c w nodeInfos pods) =
             Some (fmt_Errorf ''Pod %s can't be rescheduled on any existing spot node.''
                     [podId c (podH (heap (snd (buildDrainPlan c w nodeInfos pods)))
                                 (pods ! length (destinations c h nodePlan pods)))]) \<and>
           buildDrainPlan c w nodeInfos pods =
             buildDrainPlan c w nodeInfos (take (Suc (length (destinations c h nodePlan pods))) pods))"
      by (rule impI)
  qed
qed

theorem buildDrainPlan_stops_at_first_unplaceable_witness:
  "CopyNodeInfos exCollab (heap exWorld3) [1, 2] = (([3, 4], None), snd (copyInfos exHeap3 [1, 2])) \<and>
   destinations exCollab (snd (copyInfos exHeap3 [1, 2])) [3, 4] [0, 1, 2] = [3, 4] \<and>
   find (\<lambda>n. feasible exCollab (snd (copyInfos exHeap3 [1, 2])) n 0) [3, 4] = Some 3 \<and>
   \<not> feasible exCollab
       (heap (snd (planPods exCollab (exWorld3\<lparr>heap := snd (copyInfos exHeap3 [1, 2])\<rparr>) [3, 4] (take 2 [0, 1, 2]))))
       3 2 \<and>
   \<not> feasible exCollab
       (heap (snd (planPods exCollab (exWorld3\<lparr>heap := snd (copyInfos exHeap3 [1, 2])\<rparr>) [3, 4] (take 2 [0, 1, 2]))))
       4 2 \<and>
   fst (buildDrainPlan exCollab exWorld3 [1, 2] [0, 1, 2]) =
     Some (fmt_Errorf ''Pod %s can't be rescheduled on any existing spot node.'' [''default_c'']) \<and>
   CopyNodeInfos (nodesPackage (Some (ClientError ''connection refused'')) exCollab) (heap exWorld) [1] =
     (([], Some (ClientError ''connection refused'')), exHeap) \<and>
   fst (buildDrainPlan (nodesPackage (Some (ClientError ''connection refused'')) exCollab) exWorld [1] [0, 1]) =
     Some (ClientError ''connection refused'')"
proof -
  have cp: "CopyNodeInfos exCollab (heap exWorld3) [1, 2] = (([3, 4], None), snd (copyInfos exHeap3 [1, 2]))"
    by (simp add: ex_defs ex3_defs)
  have ds: "destinations exCollab (snd (copyInfos exHeap3 [1, 2])) [3, 4] [0, 1, 2] = [3, 4]"
    by (simp add: ex_defs ex3_defs)
  have e: "podId exCollab (podH (heap (snd (buildDrainPlan exCollab exWorld3 [1, 2] [0, 1, 2]))) 2) = ''default_c''"
    by (simp add: ex_defs ex3_defs)
  have cf: "CopyNodeInfos (nodesPackage (Some (ClientError ''connection refused'')) exCollab)
              (heap exWorld) [1] = (([], Some (ClientError ''connection refused'')), exHeap)"
    by (simp add: CopyNodeInfos_spec_def exWorld_def)
  have f0: "find (\<lambda>n. feasible exCollab (snd (copyInfos exHeap3 [1, 2])) n 0) [3, 4] = Some 3"
    by (simp add: ex_defs ex3_defs)
  show ?thesis
    using cp ds e cf f0 buildDrainPlan_stops_at_first_unplaceable [OF cp, of "[0, 1, 2]"]
      buildDrainPlan_stops_at_first_unplaceable [OF cf, of "[0, 1]"]
    by (simp add: Let_def)
qed

text \<open>
  Claim C9.  The two control loops plan alike.  On the same copy of the spot array and the
  same pods, \<^verbatim>\<open>buildDrainPlan\<close> returns nil exactly when the inline loop of the second
  \<^verbatim>\<open>main\<close> ends with \<^verbatim>\<open>unmoveablePods\<close> false; both leave the same store, so the same
  tentative pod lists, and on success the same world, log included.
\<close>

theorem variants_agree:
  assumes "CopyNodeInfos c (heap w) spotNodeInfos = ((nodePlan, None), h)"
  shows "(fst (buildDrainPlan c w spotNodeInfos pods) = None \<longleftrightarrow>
            \<not> fst (inlinePods c (w\<lparr>heap := h\<rparr>) nodePlan pods)) \<and>
         heap (snd (buildDrainPlan c w spotNodeInfos pods)) =
           heap (snd (inlinePods c (w\<lparr>heap := h\<rparr>) nodePlan pods)) \<and>
         (fst (buildDrainPlan c w spotNodeInfos pods) = None \<longrightarrow>
            snd (buildDrainPlan c w spotNodeInfos pods) =
              snd (inlinePods c (w\<lparr>heap := h\<rparr>) nodePlan pods))"
proof -
  have "buildDrainPlan c w spotNodeInfos pods = planPods c (w\<lparr>heap := h\<rparr>) nodePlan pods"
    using assms by (simp add: buildDrainPlan_def)
  then show ?thesis
    using inlinePods_planPods [of c "w\<lparr>heap := h\<rparr>" nodePlan pods] by simp
qed

theorem variants_agree_witness:
  "CopyNodeInfos exCollab (heap exWorld) [1, 2] = (([3, 4], None), snd (copyInfos exHeap [1, 2])) \<and>
   fst (buildDrainPlan exCollab exWorld [1, 2] [0, 1]) = None \<and>
   \<not> fst (inlinePods exCollab (exWorld\<lparr>heap := snd (copyInfos exHeap [1, 2])\<rparr>) [3, 4] [0, 1]) \<and>
   snd (buildDrainPlan exCollab exWorld [1, 2] [0, 1]) =
     snd (inlinePods exCollab (exWorld\<lparr>heap := snd (copyInfos exHeap [1, 2])\<rparr>) [3, 4] [0, 1])"
proof -
  have cp: "CopyNodeInfos exCollab (heap exWorld) [1, 2] = (([3, 4], None), snd (copyInfos exHeap [1, 2]))"
    by (simp add: ex_defs)
  have ok: "fst (buildDrainPlan exCollab exWorld [1, 2] [0, 1]) = None"
    by (simp add: ex_defs)
  show ?thesis
    using cp ok variants_agree [OF cp, of "[0, 1]"]
    by simp
qed

text \<open>
  Claim C10, as amended.  Planning writes to the candidate pods.  When
  \<^verbatim>\<open>findSpotNodeForPod\<close> is given at least one NodeInfo it leaves the pod with an empty
  \<^verbatim>\<open>NodeName\<close> and changes nothing else in the pod store; given no NodeInfo it changes
  nothing.  After \<^verbatim>\<open>buildDrainPlan\<close> on a spot array that is not empty, with the \<^verbatim>\<open>nodes\<close>
  package as the spec describes it, the pods it looked at (all of them on success, those up
  to and including the first it could not place on failure) have an empty \<^verbatim>\<open>NodeName\<close>
  and every other pod is as it was; this is the store the drain executor is then given.
\<close>

theorem NodeName_cleared_when_nodes_are_scanned:
  "(nodeInfos \<noteq> [] \<longrightarrow>
      podH (snd (findSpotNodeForPod c h nodeInfos pod)) = (podH h)(pod := (podH h pod)\<lparr>NodeName := []\<rparr>)) \<and>
   (nodeInfos = [] \<longrightarrow> snd (findSpotNodeForPod c h nodeInfos pod) = h) \<and>
   (nodeInfos \<noteq> [] \<longrightarrow>
      (let examined = take (Suc (length (destinations (nodesPackage None c)
                                  (snd (copyInfos (heap w) nodeInfos))
                                  (fst (copyInfos (heap w) nodeInfos)) pods))) pods
       in \<forall>q. podH (heap (snd (buildDrainPlan (nodesPackage None c) w nodeInfos pods))) q =
                 (if q \<in> set examined then (podH (heap w) q)\<lparr>NodeName := []\<rparr>
                  else podH (heap w) q)))"
proof -
  have plan: "fst (copyInfos (heap w) nodeInfos) \<noteq> []" if "nodeInfos \<noteq> []"
    using that copyInfos_length [of "heap w" nodeInfos] by (metis length_0_conv)
  show ?thesis
    using plan
    by (simp add: findSpot_find clearNodeName_def buildDrainPlan_spec planPods_podH Let_def)
qed

theorem NodeName_cleared_when_nodes_are_scanned_witness:
  "NodeName (podH exHeap 1) = ''ondemand-1'' \<and>
   NodeName (podH (snd (findSpotNodeForPod exCollab exHeap [1] 0)) 0) = [] \<and>
   snd (findSpotNodeForPod exCollab exHeap [] 0) = exHeap \<and>
   fst (buildDrainPlan (nodesPackage None exCollab) exWorld [1] [0, 1]) \<noteq> None \<and>
   NodeName (podH (heap (snd (buildDrainPlan (nodesPackage None exCollab) exWorld [1] [0, 1]))) 1) = []"
proof -
  have k: "length (destinations (nodesPackage None exCollab) (snd (copyInfos (heap exWorld) [1]))
                     (fst (copyInfos (heap exWorld) [1])) [0, 1]) = 1"
    by (simp add: ex_defs)
  have a: "NodeName (podH exHeap 1) = ''ondemand-1''"
    by (simp add: ex_defs)
  have f: "fst (buildDrainPlan (nodesPackage None exCollab) exWorld [1] [0, 1]) \<noteq> None"
    by (simp add: ex_defs)
  show ?thesis
    using k a f
      NodeName_cleared_when_nodes_are_scanned [of "[1]" exCollab exHeap 0 exWorld "[0, 1]"]
      NodeName_cleared_when_nodes_are_scanned [of "[]" exCollab exHeap 0 exWorld "[0, 1]"]
    by (simp add: Let_def)
qed

text \<open>
  Claim C10 as stated does not hold when there is no spot node: the pod passed to
  \<^verbatim>\<open>findSpotNodeForPod\<close>, which \<^verbatim>\<open>buildDrainPlan\<close> reports as not placeable, keeps its
  \<^verbatim>\<open>NodeName\<close>.
\<close>

theorem NodeName_kept_on_empty_array:
  "NodeName (podH exHeap 0) = ''ondemand-1'' \<and>
   NodeName (podH (snd (findSpotNodeForPod exCollab exHeap [] 0)) 0) = ''ondemand-1'' \<and>
   fst (buildDrainPlan exCollab exWorld [] [0, 1]) =
     Some (fmt_Errorf ''Pod %s can't be rescheduled on any existing spot node.'' [''default_a'']) \<and>
   NodeName (podH (heap (snd (buildDrainPlan exCollab exWorld [] [0, 1]))) 0) = ''ondemand-1''"
  by (simp add: ex_defs)

section \<open>The claims about the loop\<close>

text \<open>
  Claim C4.  A drain attempt that ends at clock \<open>drainDone e\<close> sets the cooldown deadline to
  that clock plus the drain delay, whether the drain executor succeeded or failed; a cycle
  that makes a drain attempt ends with that deadline.  A cycle that starts before the
  deadline only logs that it waits: it makes no drain attempt and leaves the deadline.  So
  after a drain attempt, no cycle that starts before its deadline makes a drain attempt.
\<close>

theorem cooldown_gates_drains:
  "nextDrainTime (snd (drainNode cfg e w node pods)) = drainDone e + nodeDrainDelay cfg \<and>
   (filter isDrainNode (cycleEvents c cfg e w) \<noteq> [] \<longrightarrow>
      nextDrainTime (cycle c cfg e w) = drainDone e + nodeDrainDelay cfg) \<and>
   (now e' < nextDrainTime w' \<longrightarrow>
      cycleEvents c cfg e' w' = [Infof ''Waiting %s for drain delay timer.'' [Dur (nextDrainTime w' - now e')]] \<and>
      nextDrainTime (cycle c cfg e' w') = nextDrainTime w') \<and>
   ((\<forall>e'\<in>set es. now e' < nextDrainTime w') \<longrightarrow>
      drainAttempts (run c cfg es w') = drainAttempts w' \<and>
      nextDrainTime (run c cfg es w') = nextDrainTime w')"
proof -
  have a: "nextDrainTime (snd (drainNode cfg e w node pods)) = drainDone e + nodeDrainDelay cfg"
    by simp
  have b: "nextDrainTime (cycle c cfg e w) = drainDone e + nodeDrainDelay cfg"
    if "filter isDrainNode (cycleEvents c cfg e w) \<noteq> []"
    using that outcome_cycle [of cfg e w c] drainAttempts_cycle [of c cfg e w]
    by (auto simp: outcome_def)
  have c: "cycleEvents c cfg e' w' = [Infof ''Waiting %s for drain delay timer.'' [Dur (nextDrainTime w' - now e')]] \<and>
      nextDrainTime (cycle c cfg e' w') = nextDrainTime w'"
    if "now e' < nextDrainTime w'"
    using that by (simp add: cycle_cooldown cycleEvents_def)
  have d: "drainAttempts (run c cfg es w') = drainAttempts w' \<and>
      nextDrainTime (run c cfg es w') = nextDrainTime w'"
    if "\<forall>e'\<in>set es. now e' < nextDrainTime w'"
    using that run_cooldown [of es w' c cfg] by simp
  show ?thesis
    using a b c d by blast
qed

theorem cooldown_gates_drains_witness:
  "nextDrainTime (snd (drainNode exConfig exEnv exWorld2 \<lparr>Name = ''ondemand-1'', NodeRest = 2\<rparr> [0])) = 2700 \<and>
   filter isDrainNode (cycleEvents exCollab exConfig exEnv exWorld2) =
     [DrainNode \<lparr>Name = ''ondemand-1'', NodeRest = 2\<rparr> [0]] \<and>
   nextDrainTime (cycle exCollab exConfig exEnv exWorld2) = 2700 \<and>
   now (exEnv\<lparr>now := 2200\<rparr>) < nextDrainTime (cycle exCollab exConfig exEnv exWorld2) \<and>
   now (exEnv\<lparr>now := 2699\<rparr>) < nextDrainTime (cycle exCollab exConfig exEnv exWorld2) \<and>
   cycleEvents exCollab exConfig (exEnv\<lparr>now := 2699\<rparr>) (cycle exCollab exConfig exEnv exWorld2) =
     [Infof ''Waiting %s for drain delay timer.'' [Dur 1]] \<and>
   drainAttempts (run exCollab exConfig [exEnv, exEnv\<lparr>now := 2200\<rparr>, exEnv\<lparr>now := 2699\<rparr>] exWorld2) =
     [DrainNode \<lparr>Name = ''ondemand-1'', NodeRest = 2\<rparr> [0]]"
proof -
  have t: "drainDone exEnv + nodeDrainDelay exConfig = 2700" "now (exEnv\<lparr>now := 2200\<rparr>) = 2200"
    "now (exEnv\<lparr>now := 2699\<rparr>) = 2699"
    by (simp_all add: exEnv_def exConfig_def)
  have "drainAttempts exWorld2 = []"
    by (simp add: drainAttempts_def exWorld2_def)
  then have d: "drainAttempts (cycle exCollab exConfig exEnv exWorld2) =
      [DrainNode \<lparr>Name = ''ondemand-1'', NodeRest = 2\<rparr> [0]]"
    using ex_cycle_drains by (simp add: drainAttempts_cycle)
  show ?thesis
    using t d ex_cycle_drains
      cooldown_gates_drains [where cfg = exConfig and e = exEnv and w = exWorld2
        and node = "\<lparr>Name = ''ondemand-1'', NodeRest = 2\<rparr>" and pods = "[0]" and c = exCollab
        and e' = "exEnv\<lparr>now := 2699\<rparr>" and w' = "cycle exCollab exConfig exEnv exWorld2"
        and es = "[exEnv\<lparr>now := 2200\<rparr>, exEnv\<lparr>now := 2699\<rparr>]"]
    by simp
qed

text \<open>
  Claim C5.  A cycle makes at most one drain attempt.  The loop over the on-demand nodes goes
  on with the next node, without a drain attempt, when a node cannot be drained (the
  candidate filter fails, there is no candidate, or the plan fails); at the first node that
  can be drained it makes the drain attempt and looks at no node after it, whatever the
  drain executor answers.  In a cycle that reaches the loop with at least one on-demand
  node, all of which can be drained, exactly one drain attempt is made, for the first node.
\<close>

theorem one_drain_per_cycle:
  "length (filter isDrainNode (cycleEvents c cfg e w)) \<le> 1 \<and>
   (\<not> drainable c e w spots pdbs n \<longrightarrow>
      (\<exists>w'. processNodes c cfg e w spots pdbs (n # ns) = processNodes c cfg e w' spots pdbs ns \<and>
            drainAttempts w' = drainAttempts w \<and> nextDrainTime w' = nextDrainTime w)) \<and>
   (drainable c e w spots pdbs n \<longrightarrow>
      processNodes c cfg e w spots pdbs (n # ns) = processNodes c cfg e w spots pdbs [n] \<and>
      (\<exists>node. drainAttempts (processNodes c cfg e w spots pdbs (n # ns)) =
         drainAttempts w @
           [DrainNode node
              (fst (GetPodsForDeletionOnNodeDrain e (podH (heap w)) (Pods (infoH (heap w) n)) pdbs))])) \<and>
   (\<not> now e < nextDrainTime w \<and> fst (unschedulablePods e) = [] \<and> snd (allNodes e) = None \<and>
    snd (nodeMapOf e (fst (allNodes e))) = None \<and> snd (allPDBs e) = None \<and>
    OnDemand (fst (nodeMapOf e (fst (allNodes e)))) \<noteq> [] \<and>
    (\<forall>n\<in>set (OnDemand (fst (nodeMapOf e (fst (allNodes e))))).
        drainable c e w (Spot (fst (nodeMapOf e (fst (allNodes e))))) (fst (allPDBs e)) n) \<longrightarrow>
      (\<exists>node. filter isDrainNode (cycleEvents c cfg e w) =
         [DrainNode node
            (fst (GetPodsForDeletionOnNodeDrain e (podH (heap w))
                    (Pods (infoH (heap w) (hd (OnDemand (fst (nodeMapOf e (fst (allNodes e)))))))) 
                    (fst (allPDBs e))))]))"
proof -
  have a: "length (filter isDrainNode (cycleEvents c cfg e w)) \<le> 1"
    using outcome_cycle [of cfg e w c] drainAttempts_cycle [of c cfg e w]
    by (auto simp: outcome_def)
  have b: "\<exists>w'. processNodes c cfg e w spots pdbs (n # ns) = processNodes c cfg e w' spots pdbs ns \<and>
            drainAttempts w' = drainAttempts w \<and> nextDrainTime w' = nextDrainTime w"
    if "\<not> drainable c e w spots pdbs n"
    using that by (cases rule: processNodes_Cons_cases [of c e w spots pdbs n cfg ns]) auto
  have c: "processNodes c cfg e w spots pdbs (n # ns) = processNodes c cfg e w spots pdbs [n] \<and>
      (\<exists>node. drainAttempts (processNodes c cfg e w spots pdbs (n # ns)) =
         drainAttempts w @
           [DrainNode node
              (fst (GetPodsForDeletionOnNodeDrain e (podH (heap w)) (Pods (infoH (heap w) n)) pdbs))])"
    if "drainable c e w spots pdbs n"
    using that processNodes_stops [of c e w spots pdbs n cfg ns]
      processNodes_first_drainable [of c e w spots pdbs n cfg ns] by simp
  have d: "\<exists>node. filter isDrainNode (cycleEvents c cfg e w) =
         [DrainNode node
            (fst (GetPodsForDeletionOnNodeDrain e (podH (heap w))
                    (Pods (infoH (heap w) (hd (OnDemand (fst (nodeMapOf e (fst (allNodes e)))))))) 
                    (fst (allPDBs e))))]"
    if g: "\<not> now e < nextDrainTime w" "fst (unschedulablePods e) = []" "snd (allNodes e) = None"
        "snd (nodeMapOf e (fst (allNodes e))) = None"
      and p: "snd (allPDBs e) = None"
      and ne: "OnDemand (fst (nodeMapOf e (fst (allNodes e)))) \<noteq> []"
      and all: "\<forall>n\<in>set (OnDemand (fst (nodeMapOf e (fst (allNodes e))))).
        drainable c e w (Spot (fst (nodeMapOf e (fst (allNodes e))))) (fst (allPDBs e)) n"
  proof -
    let ?nm = "fst (nodeMapOf e (fst (allNodes e)))"
    obtain n ns where ons: "OnDemand ?nm = n # ns"
      using ne by (cases "OnDemand ?nm") auto
    obtain w5 pre where w5: "heap w5 = heap w"
      and t5: "trace w5 = trace w @ pre @ [UpdateNodesMap (OnDemand ?nm) (Spot ?nm), PodDisruptionBudgetLister_List]"
      and raw: "cycle c cfg e w =
       (case snd (allPDBs e) of
          Some err \<Rightarrow> emit (Errorf ''Failed to list PDBs: %v'' [Err err]) w5
        | None \<Rightarrow>
            emit (Infof ''Finished processing nodes.'' [])
              (processNodes c cfg e
                 (if OnDemand ?nm = []
                  then emit (Infof ''No nodes to process.'' [])
                         (updateSpotNodeMetrics cfg e w5 (Spot ?nm) (fst (allPDBs e)))
                  else updateSpotNodeMetrics cfg e w5 (Spot ?nm) (fst (allPDBs e)))
                 (Spot ?nm) (fst (allPDBs e)) (OnDemand ?nm)))"
      by (rule cycle_after_node_map [OF g, where c = c and cfg = cfg])
    have cy: "cycle c cfg e w =
         emit (Infof ''Finished processing nodes.'' [])
           (processNodes c cfg e (updateSpotNodeMetrics cfg e w5 (Spot ?nm) (fst (allPDBs e)))
              (Spot ?nm) (fst (allPDBs e)) (OnDemand ?nm))"
      unfolding raw using p ne by simp
    let ?w7 = "updateSpotNodeMetrics cfg e w5 (Spot ?nm) (fst (allPDBs e))"
    have h7: "heap ?w7 = heap w"
      using w5 by simp
    have "drainAttempts w5 = drainAttempts w @ filter isDrainNode pre"
      by (simp add: drainAttempts_def t5)
    then have d7: "drainAttempts ?w7 = drainAttempts w @ filter isDrainNode pre"
      by simp
    have "drainable c e w (Spot ?nm) (fst (allPDBs e)) n"
      using all ons by simp
    then have "drainable c e ?w7 (Spot ?nm) (fst (allPDBs e)) n"
      by (simp add: drainable_heap_only [OF h7])
    from processNodes_first_drainable [OF this, of cfg ns]
    obtain node where "drainAttempts (processNodes c cfg e ?w7 (Spot ?nm) (fst (allPDBs e)) (n # ns)) =
        drainAttempts ?w7 @
          [DrainNode node (fst (GetPodsForDeletionOnNodeDrain e (podH (heap w)) (Pods (infoH (heap w) n))
                                 (fst (allPDBs e))))]"
      unfolding h7 by blast
    then have "drainAttempts (cycle c cfg e w) =
        drainAttempts w @ filter isDrainNode pre @
          [DrainNode node (fst (GetPodsForDeletionOnNodeDrain e (podH (heap w)) (Pods (infoH (heap w) n))
                                 (fst (allPDBs e))))]"
      unfolding cy ons d7 by simp
    then have "filter isDrainNode (cycleEvents c cfg e w) = filter isDrainNode pre @
          [DrainNode node (fst (GetPodsForDeletionOnNodeDrain e (podH (heap w)) (Pods (infoH (heap w) n))
                                 (fst (allPDBs e))))]"
      unfolding drainAttempts_cycle by simp
    moreover have "filter isDrainNode pre = []"
      using a calculation by (cases "filter isDrainNode pre") simp_all
    ultimately show ?thesis
      using ons by simp
  qed
  show ?thesis
    using a b c d by blast
qed

theorem one_drain_per_cycle_witness:
  "length (OnDemand (fst (nodeMapOf exEnv (fst (allNodes exEnv))))) = 2 \<and>
   drainable exCollab exEnv exWorld2 [1, 2] [] 0 \<and>
   drainable exCollab exEnv exWorld2 [1, 2] [] 3 \<and>
   \<not> drainable exCollab exEnv exWorld2 [] [] 0 \<and>
   filter isDrainNode (cycleEvents exCollab exConfig exEnv exWorld2) =
     [DrainNode \<lparr>Name = ''ondemand-1'', NodeRest = 2\<rparr> [0]] \<and>
   processNodes exCollab exConfig exEnv exWorld2 [1, 2] [] [0, 3] =
     processNodes exCollab exConfig exEnv exWorld2 [1, 2] [] [0] \<and>
   length (drainAttempts (processNodes exCollab exConfig exEnv exWorld2 [] [] [0, 3])) = 0"
proof -
  have g: "\<not> now exEnv < nextDrainTime exWorld2" "fst (unschedulablePods exEnv) = []"
    "snd (allNodes exEnv) = None" "snd (nodeMapOf exEnv (fst (allNodes exEnv))) = None"
    "snd (allPDBs exEnv) = None" "fst (nodeMapOf exEnv (fst (allNodes exEnv))) = \<lparr>OnDemand = [0, 3], Spot = [1, 2]\<rparr>"
    "fst (allPDBs exEnv) = []"
    by (simp_all add: exEnv_def exWorld2_def)
  have nd: "\<not> drainable exCollab exEnv exWorld2 [] [] 0"
    by (simp add: ex_defs ex_loop_defs)
  have none: "length (drainAttempts (processNodes exCollab exConfig exEnv exWorld2 [] [] [0, 3])) = 0"
    by (simp add: ex_defs ex_loop_defs)
  have pods0: "fst (GetPodsForDeletionOnNodeDrain exEnv (podH (heap exWorld2)) (Pods (infoH (heap exWorld2) 0)) []) = [0]"
    by (simp add: ex_defs ex_loop_defs)
  show ?thesis
    using g nd none pods0 ex_drainable ex_cycle_drains
      one_drain_per_cycle [of exCollab exConfig exEnv exWorld2 "[1, 2]" "[]" 0 "[3]"]
    by simp
qed

text \<open>
  Claim C6.  If the cooldown has passed and the list of unschedulable pods is not empty, the
  cycle lists the unschedulable pods, logs, and ends: the node map is not built, no drain
  attempt is made, and the store (so no plan was made) and the deadline are as before.
\<close>

theorem unschedulable_pods_skip_cycle:
  assumes "\<not> now e < nextDrainTime w" and "fst (unschedulablePods e) \<noteq> []"
  shows "cycleEvents c cfg e w =
           UnschedulablePodLister_List #
           (case snd (unschedulablePods e) of
              Some err \<Rightarrow> [Errorf ''Failed to get unschedulable pods: %v'' [Err err]]
            | None \<Rightarrow> []) @
           [Infof ''Waiting for unschedulable pods to be scheduled.'' []] \<and>
         NewNodeMap \<notin> set (cycleEvents c cfg e w) \<and>
         filter isDrainNode (cycleEvents c cfg e w) = [] \<and>
         heap (cycle c cfg e w) = heap w \<and>
         nextDrainTime (cycle c cfg e w) = nextDrainTime w"
  using assms unfolding cycleEvents_def cycle_unfold Let_def
  by (simp split: option.splits)

theorem unschedulable_pods_skip_cycle_witness:
  "\<not> now (exEnv\<lparr>unschedulablePods := ([7], None)\<rparr>) < nextDrainTime exWorld2 \<and>
   fst (unschedulablePods (exEnv\<lparr>unschedulablePods := ([7], None)\<rparr>)) \<noteq> [] \<and>
   drainable exCollab (exEnv\<lparr>unschedulablePods := ([7], None)\<rparr>) exWorld2 [1, 2] [] 0 \<and>
   cycleEvents exCollab exConfig (exEnv\<lparr>unschedulablePods := ([7], None)\<rparr>) exWorld2 =
     [UnschedulablePodLister_List, Infof ''Waiting for unschedulable pods to be scheduled.'' []] \<and>
   heap (cycle exCollab exConfig (exEnv\<lparr>unschedulablePods := ([7], None)\<rparr>) exWorld2) = heap exWorld2"
proof -
  have a: "\<not> now (exEnv\<lparr>unschedulablePods := ([7], None)\<rparr>) < nextDrainTime exWorld2"
    by (simp add: exEnv_def exWorld2_def)
  have b: "fst (unschedulablePods (exEnv\<lparr>unschedulablePods := ([7], None)\<rparr>)) \<noteq> []"
    by simp
  have d: "drainable exCollab (exEnv\<lparr>unschedulablePods := ([7], None)\<rparr>) exWorld2 [1, 2] [] 0"
    by (simp add: ex_defs ex_loop_defs)
  show ?thesis
    using a b d unschedulable_pods_skip_cycle [OF a b, of exCollab exConfig]
    by simp
qed

text \<open>
  Claim C7 fails for the list of unschedulable pods.  In the example cluster, with listing
  the unschedulable pods failing, the cycle logs the error and goes on: it drains the first
  on-demand node and moves the cooldown deadline.
\<close>

theorem unschedulable_list_error_does_not_abort:
  "unschedulablePods exEnvListError = ([], Some (ClientError ''timeout'')) \<and>
   take 3 (trace (cycle exCollab exConfig exEnvListError exWorld2)) =
     [UnschedulablePodLister_List,
      Errorf ''Failed to get unschedulable pods: %v'' [Err (ClientError ''timeout'')],
      Infof ''Starting node processing.'' []] \<and>
   filter isDrainNode (trace (cycle exCollab exConfig exEnvListError exWorld2)) =
     [DrainNode \<lparr>Name = ''ondemand-1'', NodeRest = 2\<rparr> [0]] \<and>
   nextDrainTime exWorld2 = 1000 \<and>
   nextDrainTime (cycle exCollab exConfig exEnvListError exWorld2) = 2700"
  by (simp add: ex_defs ex_loop_defs)




end
